theory Spec2Isabelle
  imports Main "HOL-Library.Word" "HOL-Library.Log_Nat"
begin

section \<open>The CoastDat reader of libmaxdiv: \<^verbatim>\<open>experiments/maxdiv_coastdat.cc\<close>\<close>

text \<open>
  The file reads a region of the CoastDat data set from one NetCDF file per variable and
  year, pools it spatially into a five-dimensional tensor and passes the tensor to the
  MaxDiv algorithm. The embedding below follows the file function by function. The
  NetCDF library, the MaxDiv library and the helpers of \<^verbatim>\<open>utils.h\<close> and
  \<^verbatim>\<open>DataTensor.h\<close> are not part of the file: the libraries are parameters of the
  model, the helpers are modelled from the specification.
\<close>

subsection \<open>Compile-time constants\<close>

definition COASTDAT_PATH :: string where
  "COASTDAT_PATH = ''/home/barz/anomaly-detection/CoastDat-raw/''"

definition COASTDAT_FIRST_YEAR :: "32 word" where
  "COASTDAT_FIRST_YEAR = 1958"

definition COASTDAT_NUM_YEARS :: "32 word" where
  "COASTDAT_NUM_YEARS = 50"

definition NC_NOERR :: int where
  "NC_NOERR = 0"

subsection \<open>The parameter structure\<close>

text \<open>
  \<^verbatim>\<open>coastdat_params_t\<close>: every numeric field is an \<^verbatim>\<open>unsigned int\<close>, a 32-bit word whose
  arithmetic wraps. A pointer to the structure is an \<open>option\<close>: \<open>None\<close> is \<^verbatim>\<open>NULL\<close>.
\<close>

record coastdat_params_t =
  variables :: string
  firstYear :: "32 word"
  lastYear :: "32 word"
  firstLat :: "32 word"
  lastLat :: "32 word"
  firstLon :: "32 word"
  lastLon :: "32 word"
  spatialPoolingSize :: "32 word"

text \<open>
  \<^verbatim>\<open>maxdiv_coastdat_default_params\<close>: returns at once on \<^verbatim>\<open>NULL\<close>, otherwise overwrites
  all eight fields of the structure pointed to. The function's result is the structure
  behind the pointer after the call.
\<close>

definition maxdiv_coastdat_default_params :: "coastdat_params_t option \<Rightarrow> coastdat_params_t option" where
  "maxdiv_coastdat_default_params data_params =
     (case data_params of
        None \<Rightarrow> None
      | Some p \<Rightarrow> Some (p\<lparr> variables := ''ff,hs,mp'',
                           firstYear := 1,
                           lastYear := 50,
                           firstLat := 53,
                           lastLat := 100,
                           firstLon := 30,
                           lastLon := 98,
                           spatialPoolingSize := 4 \<rparr>))"

subsection \<open>Year normalisation (lines 85 and 86 of the file)\<close>

text \<open>
  Both years go through the same conditional expression
  \<^verbatim>\<open>(y >= COASTDAT_FIRST_YEAR) ? y - COASTDAT_FIRST_YEAR + 1 : y\<close> on \<^verbatim>\<open>unsigned int\<close>.
\<close>

definition normalize_year :: "32 word \<Rightarrow> 32 word" where
  "normalize_year y = (if y \<ge> COASTDAT_FIRST_YEAR then y - COASTDAT_FIRST_YEAR + 1 else y)"

subsection \<open>String helpers\<close>

text \<open>
  Modelled from the spec: \<^verbatim>\<open>strtolower\<close> of \<^verbatim>\<open>utils.h\<close>, which is not part of the
  file. The specification says that the variable list is lower-cased: the upper-case
  ASCII letters are mapped to lower case, every other character is kept.
\<close>

definition tolower_char :: "char \<Rightarrow> char" where
  "tolower_char c =
     (let n = (of_char c :: nat) in if 65 \<le> n \<and> n \<le> 90 then char_of (n + 32) else c)"

definition strtolower :: "string \<Rightarrow> string" where
  "strtolower str = map tolower_char str"

text \<open>
  Modelled from the spec: \<^verbatim>\<open>splitString\<close> of \<^verbatim>\<open>utils.h\<close>, which is not part of the
  file. The specification says that the list is split on the separators and may come out
  empty: the tokens are the maximal non-empty runs of characters that are not delimiters.
  \<open>splitString_from\<close> carries the token read so far; the C++ function appends the tokens
  to its third argument and returns their number, here the tokens are the result and the
  caller takes their \<open>length\<close>.
\<close>

fun splitString_from :: "string \<Rightarrow> string \<Rightarrow> string \<Rightarrow> string list" where
  "splitString_from delimiters tok [] = (if tok = [] then [] else [tok])"
| "splitString_from delimiters tok (c # cs) =
     (if c \<in> set delimiters
      then (if tok = [] then splitString_from delimiters [] cs
            else tok # splitString_from delimiters [] cs)
      else splitString_from delimiters (tok @ [c]) cs)"

definition splitString :: "string \<Rightarrow> string \<Rightarrow> string list" where
  "splitString str delimiters = splitString_from delimiters [] str"

text \<open>
  \<^verbatim>\<open>sprintf\<close> with the conversion \<^verbatim>\<open>%03u\<close>: the decimal digits of the number, padded
  with zeros on the left to at least three characters. The 512 bytes of the destination
  array are not modelled: the file name is the string that \<^verbatim>\<open>sprintf\<close> produces.
\<close>

definition digit_char :: "nat \<Rightarrow> char" where
  "digit_char n = char_of (48 + n)"

function decimal :: "nat \<Rightarrow> string" where
  "decimal n = (if n < 10 then [digit_char n] else decimal (n div 10) @ [digit_char (n mod 10)])"
  by pat_completeness auto
termination
  by (relation "measure id") auto

declare decimal.simps [simp del]

definition format_03u :: "nat \<Rightarrow> string" where
  "format_03u n = replicate (3 - length (decimal n)) (CHR ''0'') @ decimal n"

text \<open>
  The format string of lines 101 and 133,
  \<^verbatim>\<open>COASTDAT_PATH "%s/coastDat-1_Waves_%s_%03u.nc"\<close>, applied to a variable name (twice)
  and to the loop variable \<^verbatim>\<open>year\<close>.
\<close>

definition coastdat_filename :: "string \<Rightarrow> nat \<Rightarrow> string" where
  "coastdat_filename var year =
     COASTDAT_PATH @ var @ ''/coastDat-1_Waves_'' @ var @ ''_'' @ format_03u year @ ''.nc''"

subsection \<open>Floating-point arithmetic of the shape computation\<close>

text \<open>
  Lines 94 and 95 compute the pooled extents in floating point. The values are modelled
  as rationals and every operation rounds as IEEE 754 does in the default mode: to the
  nearest number with \<open>p\<close> significant bits, ties to the even significand (\<open>p = 24\<close> for
  \<^verbatim>\<open>float\<close>, \<open>p = 53\<close> for \<^verbatim>\<open>double\<close>). The operands here are 32-bit unsigned integers and
  their quotients, which lie far inside the exponent range of both formats, so overflow,
  underflow and subnormal numbers do not occur and are not modelled.
\<close>

definition pow2 :: "int \<Rightarrow> rat" where
  "pow2 e = (if 0 \<le> e then 2 ^ nat e else 1 / 2 ^ nat (- e))"

definition ilog2 :: "rat \<Rightarrow> int" where
  \<comment> \<open>the exponent \<open>e\<close> with \<open>2\<^sup>e \<le> q < 2\<^sup>e\<^sup>+\<^sup>1\<close>, for \<open>q > 0\<close>\<close>
  "ilog2 q = (if 1 \<le> q then bitlen \<lfloor>q\<rfloor> - 1 else - bitlen (\<lceil>1 / q\<rceil> - 1))"

definition round_even :: "rat \<Rightarrow> int" where
  "round_even q =
     (let f = \<lfloor>q\<rfloor>; r = q - of_int f
      in if r < 1 / 2 then f else if 1 / 2 < r then f + 1 else if even f then f else f + 1)"

definition fp_round :: "nat \<Rightarrow> rat \<Rightarrow> rat" where
  "fp_round p q =
     (if q \<le> 0 then 0
      else let u = pow2 (ilog2 q - int p + 1) in of_int (round_even (q / u)) * u)"

definition to_float :: "rat \<Rightarrow> rat" where
  "to_float q = fp_round 24 q"

definition to_double :: "rat \<Rightarrow> rat" where
  "to_double q = fp_round 53 q"

definition ceil_fp :: "rat \<Rightarrow> rat" where
  \<comment> \<open>\<^verbatim>\<open>ceil\<close>: the result is an integer of at most 33 bits, exact in both formats\<close>
  "ceil_fp q = of_int \<lceil>q\<rceil>"

definition to_Index :: "rat \<Rightarrow> nat" where
  \<comment> \<open>conversion of a non-negative floating-point value to an integer index: truncation\<close>
  "to_Index q = nat \<lfloor>q\<rfloor>"

definition of_uint :: "32 word \<Rightarrow> rat" where
  "of_uint w = of_nat (unat w)"

subsection \<open>Tensors and the raw block\<close>

text \<open>
  Modelled from the spec: \<^verbatim>\<open>ReflessIndexVector\<close> and \<^verbatim>\<open>DataTensor\<close> of
  \<^verbatim>\<open>DataTensor.h\<close>, which is not part of the file. A shape is five non-negative
  integers (time, x, y, z, channel). The destination tensor is a dense array addressed
  by the five indices: it is a map from index tuples to samples, where a cell that was
  never written since the last \<^verbatim>\<open>resize\<close> has no value. \<^verbatim>\<open>width()\<close> and
  \<^verbatim>\<open>height()\<close> are the x and y extents of the shape.
  Samples (\<^verbatim>\<open>MaxDiv::Scalar\<close>, \<^verbatim>\<open>float\<close> or \<^verbatim>\<open>double\<close> by a build switch) are rationals;
  the rounding of sums and quotients of samples is not modelled.
\<close>

type_synonym Scalar = rat
type_synonym Index = nat

record ReflessIndexVector =
  ind_t :: Index
  ind_x :: Index
  ind_y :: Index
  ind_z :: Index
  ind_d :: Index

record DataTensor =
  tensor_shape :: ReflessIndexVector
  tensor_data :: "Index \<times> Index \<times> Index \<times> Index \<times> Index \<rightharpoonup> Scalar"

definition empty_tensor :: DataTensor where
  \<comment> \<open>a default-constructed \<^verbatim>\<open>DataTensor\<close>\<close>
  "empty_tensor = \<lparr> tensor_shape = \<lparr> ind_t = 0, ind_x = 0, ind_y = 0, ind_z = 0, ind_d = 0 \<rparr>,
                    tensor_data = Map.empty \<rparr>"

definition resize :: "ReflessIndexVector \<Rightarrow> DataTensor \<Rightarrow> DataTensor" where
  "resize shape T = \<lparr> tensor_shape = shape, tensor_data = Map.empty \<rparr>"

definition tensor_write :: "Index \<times> Index \<times> Index \<times> Index \<times> Index \<Rightarrow> Scalar \<Rightarrow> DataTensor \<Rightarrow> DataTensor" where
  \<comment> \<open>\<^verbatim>\<open>coastData({ t, x, y, z, d }) = v\<close>\<close>
  "tensor_write i v T = T\<lparr> tensor_data := (tensor_data T)(i \<mapsto> v) \<rparr>"

text \<open>
  The transient \<^verbatim>\<open>buffer\<close> is read through \<^verbatim>\<open>raw()\<close> only: it is its shape and the
  contiguous storage that the NetCDF read fills, a function from offsets to samples.
\<close>

record RawBlock =
  block_shape :: ReflessIndexVector
  block_raw :: "nat \<Rightarrow> Scalar"

definition width :: "RawBlock \<Rightarrow> Index" where
  "width buffer = ind_x (block_shape buffer)"

definition height :: "RawBlock \<Rightarrow> Index" where
  "height buffer = ind_y (block_shape buffer)"

text \<open>
  Line 163: an Eigen map over \<^verbatim>\<open>buffer.raw()\<close> with \<^verbatim>\<open>width()\<close> rows, \<^verbatim>\<open>height()\<close>
  columns, outer (row) stride \<^verbatim>\<open>height()\<close> and inner stride 1. The pointer is the start
  of the storage for every value of the loop variable \<^verbatim>\<open>t\<close>; the loop variable is kept
  as an argument that the right-hand side does not use, as in the source.
\<close>

definition timestep :: "RawBlock \<Rightarrow> nat \<Rightarrow> nat \<Rightarrow> nat \<Rightarrow> Scalar" where
  "timestep buffer t i j = block_raw buffer (i * height buffer + j * 1)"

text \<open>
  \<^verbatim>\<open>m.block(startRow, startCol, blockRows, blockCols).mean()\<close>: the sum of the block's
  coefficients divided by their number.
\<close>

definition block_mean :: "(nat \<Rightarrow> nat \<Rightarrow> Scalar) \<Rightarrow> nat \<Rightarrow> nat \<Rightarrow> nat \<Rightarrow> nat \<Rightarrow> Scalar" where
  "block_mean m startRow startCol blockRows blockCols =
     (\<Sum>i \<leftarrow> [startRow ..< startRow + blockRows].
        \<Sum>j \<leftarrow> [startCol ..< startCol + blockCols]. m i j)
     / of_nat (blockRows * blockCols)"

subsection \<open>The NetCDF library\<close>

text \<open>
  Modelled from the spec: the storage backend (libnetcdf), an external collaborator. Each
  call returns a status, \<open>NC_NOERR\<close> on success, and its output. A file handle is
  identified with the path it was opened from. A backend is a value: the same call on
  the same arguments gives the same answer throughout one run.
\<close>

record nc_backend =
  nc_open :: "string \<Rightarrow> int"
  nc_inq_varid :: "string \<Rightarrow> string \<Rightarrow> int \<times> int"
  nc_inq_dimid :: "string \<Rightarrow> string \<Rightarrow> int \<times> int"
  nc_inq_dimlen :: "string \<Rightarrow> int \<Rightarrow> int \<times> nat"
  nc_get_vara :: "string \<Rightarrow> int \<Rightarrow> nat \<times> nat \<times> nat \<Rightarrow> nat \<times> nat \<times> nat \<Rightarrow> int \<times> (nat \<Rightarrow> Scalar)"

text \<open>
  What a run does to the outside world is recorded in order: every file it opens (all
  other NetCDF calls are made on a file opened just before) and every call of the MaxDiv
  library.
\<close>

datatype event =
    NcOpen string
  | CallMaxdiv
  | CallDetermineContextWindowSize

subsection \<open>\<^verbatim>\<open>read_coastdat\<close>\<close>

text \<open>
  Lines 94 and 95, the pooled extents. Line 95 is
  \<^verbatim>\<open>ceil((lastLat - firstLat + 1) / static_cast<float>(spatialPoolingSize))\<close>: the extent
  (an \<^verbatim>\<open>unsigned int\<close>) and the pooling size are converted to \<^verbatim>\<open>float\<close>, divided in
  \<^verbatim>\<open>float\<close>, and the quotient is rounded up. Line 94 is written
  \<^verbatim>\<open>ceil(lastLon - firstLon + 1) / static_cast<float>(spatialPoolingSize));;\<close>: the
  argument of \<^verbatim>\<open>ceil\<close> is the integer extent alone, the division comes after it, and the
  line ends in a closing parenthesis that matches nothing. The expression is taken as the
  line groups it: \<^verbatim>\<open>ceil\<close> of the extent (a \<^verbatim>\<open>double\<close>) divided by the \<^verbatim>\<open>float\<close>
  pooling size, and the quotient is truncated when it is stored in the integer \<^verbatim>\<open>shape.x\<close>.
\<close>

definition shape_x :: "coastdat_params_t \<Rightarrow> Index" where
  "shape_x p =
     to_Index (to_double (ceil_fp (of_uint (lastLon p - firstLon p + 1))
                          / to_float (of_uint (spatialPoolingSize p))))"

definition shape_y :: "coastdat_params_t \<Rightarrow> Index" where
  "shape_y p =
     to_Index (ceil_fp (to_float (to_float (of_uint (lastLat p - firstLat p + 1))
                                  / to_float (of_uint (spatialPoolingSize p)))))"

text \<open>
  Lines 98 to 117, the first loop over the years: it opens the file of the first variable,
  asks for the variable and for the length of the dimension \<^verbatim>\<open>time\<close>, and adds the
  length to \<^verbatim>\<open>shape.t\<close>. Any status other than \<open>NC_NOERR\<close> is returned at once. The
  result is the status (0 when the loop ran to its end), \<^verbatim>\<open>shape.t\<close> and the record of
  events. The loop variable is an \<^verbatim>\<open>unsigned int\<close> that runs from the normalised first
  year to the normalised last year; the last year is below \<open>2\<^sup>3\<^sup>2 - 1\<close> (lemma
  \<open>normalize_year_bound\<close> below), so the increment does not wrap and the loop is a
  recursion over the list of these years.
\<close>

fun measuring_loop :: "nc_backend \<Rightarrow> string list \<Rightarrow> nat list \<Rightarrow> nat \<Rightarrow> event list
    \<Rightarrow> int \<times> nat \<times> event list" where
  "measuring_loop nc vars [] shape_t trace = (0, shape_t, trace)"
| "measuring_loop nc vars (year # years) shape_t trace =
     (let filename = coastdat_filename (vars ! 0) year;
          trace = trace @ [NcOpen filename];
          status = nc_open nc filename
      in if status \<noteq> NC_NOERR then (status, shape_t, trace) else
         let (status, var_id) = nc_inq_varid nc filename (vars ! 0)
      in if status \<noteq> NC_NOERR then (status, shape_t, trace) else
         let (status, dim_id) = nc_inq_dimid nc filename ''time''
      in if status \<noteq> NC_NOERR then (status, shape_t, trace) else
         let (status, dim_len) = nc_inq_dimlen nc filename dim_id
      in if status \<noteq> NC_NOERR then (status, shape_t, trace) else
         measuring_loop nc vars years (shape_t + dim_len) trace)"

text \<open>
  Lines 160 to 176, average pooling of one block: for every time step \<open>t\<close> of the block
  and every cell \<open>(x, y)\<close> of the shape, the mean of a window of the map \<open>timestep\<close> is
  stored at \<open>(timeOffset + t, x, y, 0, d)\<close>. The window starts at row
  \<open>y * spatialPoolingSize\<close> and column \<open>x * spatialPoolingSize\<close>; it has
  \<open>min(spatialPoolingSize, width - y * spatialPoolingSize)\<close> rows and
  \<open>min(spatialPoolingSize, height - x * spatialPoolingSize)\<close> columns. The differences
  are on natural numbers: they stop at 0 where the unsigned C++ difference would wrap,
  which needs a window that starts beyond the block.
\<close>

definition pooled_value :: "nat \<Rightarrow> RawBlock \<Rightarrow> nat \<Rightarrow> Index \<Rightarrow> Index \<Rightarrow> Scalar" where
  "pooled_value poolingSize buffer t x y =
     block_mean (timestep buffer t)
       (y * poolingSize)
       (x * poolingSize)
       (min poolingSize (width buffer - y * poolingSize))
       (min poolingSize (height buffer - x * poolingSize))"

definition average_pooling :: "nat \<Rightarrow> ReflessIndexVector \<Rightarrow> RawBlock \<Rightarrow> nat \<Rightarrow> nat \<Rightarrow> nat
    \<Rightarrow> DataTensor \<Rightarrow> DataTensor" where
  "average_pooling poolingSize shape buffer dim_len timeOffset d coastData =
     fold (\<lambda>t. fold (\<lambda>x. fold (\<lambda>y.
             tensor_write (timeOffset + t, x, y, 0, d) (pooled_value poolingSize buffer t x y))
           [0 ..< ind_y shape]) [0 ..< ind_x shape]) [0 ..< dim_len] coastData"

text \<open>
  Lines 130 to 177, the loop over the variables of one year. The variable \<^verbatim>\<open>dim_len\<close> is
  declared outside both loops and is read after this loop (line 178), so the loop takes
  it and gives it back. Line 150 sizes the buffer with \<^verbatim>\<open>dara_length[0]\<close>, a name that
  is declared nowhere; it is read as \<^verbatim>\<open>dataLength[0]\<close>, the length assigned on line 147.
\<close>

fun variable_loop :: "nc_backend \<Rightarrow> coastdat_params_t \<Rightarrow> string list \<Rightarrow> ReflessIndexVector \<Rightarrow> nat
    \<Rightarrow> nat \<Rightarrow> nat list \<Rightarrow> nat \<Rightarrow> DataTensor \<Rightarrow> event list
    \<Rightarrow> int \<times> nat \<times> DataTensor \<times> event list" where
  "variable_loop nc p vars shape year timeOffset [] dim_len coastData trace =
     (0, dim_len, coastData, trace)"
| "variable_loop nc p vars shape year timeOffset (d # ds) dim_len coastData trace =
     (let filename = coastdat_filename (vars ! d) year;
          trace = trace @ [NcOpen filename];
          status = nc_open nc filename
      in if status \<noteq> NC_NOERR then (status, dim_len, coastData, trace) else
         let (status, var_id) = nc_inq_varid nc filename (vars ! d)
      in if status \<noteq> NC_NOERR then (status, dim_len, coastData, trace) else
         let (status, dim_id) = nc_inq_dimid nc filename ''time''
      in if status \<noteq> NC_NOERR then (status, dim_len, coastData, trace) else
         let (status, dim_len) = nc_inq_dimlen nc filename dim_id
      in if status \<noteq> NC_NOERR then (status, dim_len, coastData, trace) else
         let dataStart = (0, unat (firstLat p), unat (firstLon p));
             dataLength = (dim_len, unat (lastLat p - firstLat p + 1),
                           unat (lastLon p - firstLon p + 1));
             (status, raw) = nc_get_vara nc filename var_id dataStart dataLength;
             buffer = \<lparr> block_shape = \<lparr> ind_t = dim_len,
                                         ind_x = unat (lastLat p - firstLat p + 1),
                                         ind_y = unat (lastLon p - firstLon p + 1),
                                         ind_z = 1, ind_d = 1 \<rparr>,
                        block_raw = raw \<rparr>
      in if status \<noteq> NC_NOERR then (status, dim_len, coastData, trace) else
         variable_loop nc p vars shape year timeOffset ds dim_len
           (average_pooling (unat (spatialPoolingSize p)) shape buffer dim_len timeOffset d coastData)
           trace)"

text \<open>
  Lines 128 to 179, the second loop over the years: after the variables of a year,
  \<^verbatim>\<open>timeOffset\<close> grows by \<^verbatim>\<open>dim_len\<close>, the length that the last variable of the year
  reported. The value of \<^verbatim>\<open>dim_len\<close> on entry is never read: the variable list is not
  empty, so the inner loop assigns it first.
\<close>

fun year_loop :: "nc_backend \<Rightarrow> coastdat_params_t \<Rightarrow> string list \<Rightarrow> ReflessIndexVector \<Rightarrow> nat list
    \<Rightarrow> nat \<Rightarrow> nat \<Rightarrow> DataTensor \<Rightarrow> event list \<Rightarrow> int \<times> DataTensor \<times> event list" where
  "year_loop nc p vars shape [] timeOffset dim_len coastData trace = (0, coastData, trace)"
| "year_loop nc p vars shape (year # years) timeOffset dim_len coastData trace =
     (let (status, dim_len, coastData, trace) =
            variable_loop nc p vars shape year timeOffset [0 ..< length vars] dim_len coastData trace
      in if status \<noteq> 0 then (status, coastData, trace)
         else year_loop nc p vars shape years (timeOffset + dim_len) dim_len coastData trace)"

text \<open>
  The function itself. It takes the pointer to the parameters and the tensor passed by
  reference; it returns the status, the tensor after the call and the record of events.
\<close>

definition read_coastdat :: "nc_backend \<Rightarrow> coastdat_params_t option \<Rightarrow> DataTensor
    \<Rightarrow> int \<times> DataTensor \<times> event list" where
  "read_coastdat nc data_params coastData =
     (case data_params of
        None \<Rightarrow> (1, coastData, [])
      | Some p \<Rightarrow>
          if spatialPoolingSize p < 1 then (1, coastData, []) else
          let vars = splitString (strtolower (variables p)) '',; ''
          in if int (length vars) < 1 then (1, coastData, []) else
          let first_year = normalize_year (firstYear p);
              last_year = normalize_year (lastYear p)
          in if first_year < 1 \<or> last_year < 1 \<or> last_year < first_year
                \<or> last_year - first_year + 1 > COASTDAT_NUM_YEARS
             then (1, coastData, []) else
          let years = [unat first_year ..< Suc (unat last_year)];
              (status, shape_t, trace) = measuring_loop nc vars years 0 []
          in if status \<noteq> 0 then (status, coastData, trace) else
          let shape = \<lparr> ind_t = shape_t, ind_x = shape_x p, ind_y = shape_y p,
                        ind_z = 1, ind_d = length vars \<rparr>
          in year_loop nc p vars shape years 0 0 (resize shape coastData) trace)"

subsection \<open>The entry points\<close>

text \<open>
  Modelled from the spec: the MaxDiv library (\<^verbatim>\<open>libmaxdiv.h\<close>), an external collaborator.
  The analysis routine takes its parameters, the tensor and the detection buffer (with
  its size), and returns a code, 0 on success, and the buffer as it left it. The sizing
  function takes the tensor and returns the window size.
\<close>

record ('p, 'b) maxdiv_lib =
  maxdiv :: "'p \<Rightarrow> DataTensor \<Rightarrow> 'b \<Rightarrow> int \<times> 'b"
  determineContextWindowSize :: "DataTensor \<Rightarrow> int"

text \<open>
  \<^verbatim>\<open>maxdiv_coastdat\<close>, lines 186 to 206. The call of \<^verbatim>\<open>maxdiv\<close> on line 199 is a
  statement: what it returns is not kept, and line 205 returns the constant 0. Line 199
  passes \<^verbatim>\<open>coastData.raw()\<close> and \<^verbatim>\<open>shape.ind\<close>; no \<^verbatim>\<open>shape\<close> is declared in
  this function, and the model hands over the tensor with the shape it carries.
\<close>

definition maxdiv_coastdat :: "nc_backend \<Rightarrow> ('p, 'b) maxdiv_lib \<Rightarrow> 'p option
    \<Rightarrow> coastdat_params_t option \<Rightarrow> 'b \<Rightarrow> int \<times> 'b \<times> event list" where
  "maxdiv_coastdat nc lib params data_params detection_buf =
     (case params of
        None \<Rightarrow> (1, detection_buf, [])
      | Some ps \<Rightarrow>
          let (status, coastData, trace) = read_coastdat nc data_params empty_tensor
          in if status \<noteq> 0 then (status, detection_buf, trace)
             else let (code, detection_buf) = maxdiv lib ps coastData detection_buf
                  in (0, detection_buf, trace @ [CallMaxdiv]))"

text \<open>\<^verbatim>\<open>maxdiv_coastdat_context_window_size\<close>, lines 209 to 216.\<close>

definition maxdiv_coastdat_context_window_size :: "nc_backend \<Rightarrow> ('p, 'b) maxdiv_lib
    \<Rightarrow> coastdat_params_t option \<Rightarrow> int \<times> event list" where
  "maxdiv_coastdat_context_window_size nc lib data_params =
     (let (status, coastData, trace) = read_coastdat nc data_params empty_tensor
      in if status \<noteq> 0 then (0, trace)
         else (determineContextWindowSize lib coastData,
               trace @ [CallDetermineContextWindowSize]))"

subsection \<open>Notions used in the statements\<close>

text \<open>
  The time extent that the backend reports for a variable and a year: the answer to the
  two queries that both loops make on the file of that variable and year.
\<close>

definition reported_time_extent :: "nc_backend \<Rightarrow> string \<Rightarrow> nat \<Rightarrow> nat" where
  "reported_time_extent nc var year =
     (let filename = coastdat_filename var year
      in snd (nc_inq_dimlen nc filename (snd (nc_inq_dimid nc filename ''time''))))"

text \<open>
  The backend answers all four queries on the file of a variable and a year with
  \<open>NC_NOERR\<close>; and it also delivers the block that the second loop asks for.
\<close>

definition query_ok :: "nc_backend \<Rightarrow> string \<Rightarrow> nat \<Rightarrow> bool" where
  "query_ok nc var year =
     (let filename = coastdat_filename var year
      in nc_open nc filename = NC_NOERR
         \<and> fst (nc_inq_varid nc filename var) = NC_NOERR
         \<and> fst (nc_inq_dimid nc filename ''time'') = NC_NOERR
         \<and> fst (nc_inq_dimlen nc filename (snd (nc_inq_dimid nc filename ''time''))) = NC_NOERR)"

definition read_ok :: "nc_backend \<Rightarrow> coastdat_params_t \<Rightarrow> string \<Rightarrow> nat \<Rightarrow> bool" where
  "read_ok nc p var year =
     (let filename = coastdat_filename var year
      in query_ok nc var year
         \<and> fst (nc_get_vara nc filename (snd (nc_inq_varid nc filename var))
                  (0, unat (firstLat p), unat (firstLon p))
                  (reported_time_extent nc var year, unat (lastLat p - firstLat p + 1),
                   unat (lastLon p - firstLon p + 1))) = NC_NOERR)"

text \<open>
  The raw block that the second loop reads for a variable and a year (lines 147 to 154):
  all time steps, the latitudes from \<open>firstLat\<close> and the longitudes from \<open>firstLon\<close>,
  with the extents computed on \<^verbatim>\<open>unsigned int\<close>.
\<close>

definition raw_block :: "nc_backend \<Rightarrow> coastdat_params_t \<Rightarrow> string \<Rightarrow> nat \<Rightarrow> RawBlock" where
  "raw_block nc p var year =
     (let filename = coastdat_filename var year;
          dim_len = reported_time_extent nc var year;
          lat_len = unat (lastLat p - firstLat p + 1);
          lon_len = unat (lastLon p - firstLon p + 1)
      in \<lparr> block_shape = \<lparr> ind_t = dim_len, ind_x = lat_len, ind_y = lon_len, ind_z = 1, ind_d = 1 \<rparr>,
           block_raw = snd (nc_get_vara nc filename (snd (nc_inq_varid nc filename var))
                             (0, unat (firstLat p), unat (firstLon p))
                             (dim_len, lat_len, lon_len)) \<rparr>)"

text \<open>
  The variable list and the normalised year range of a parameter structure, and the
  years that both loops run through.
\<close>

definition variable_list :: "coastdat_params_t \<Rightarrow> string list" where
  "variable_list p = splitString (strtolower (variables p)) '',; ''"

definition selected_years :: "coastdat_params_t \<Rightarrow> nat list" where
  "selected_years p =
     [unat (normalize_year (firstYear p)) ..< Suc (unat (normalize_year (lastYear p)))]"

text \<open>
  The specification's words for a region that the Region Selector rejects, on
  mathematical integers: the pooling size is below 1, or the variable list is empty, or,
  after the conversion of the years, the first or the last year is below 1, the last
  year is before the first, or the span is longer than the data set.
\<close>

definition invalid_region :: "coastdat_params_t \<Rightarrow> bool" where
  "invalid_region p =
     (let first_year = int (unat (normalize_year (firstYear p)));
          last_year = int (unat (normalize_year (lastYear p)))
      in unat (spatialPoolingSize p) < 1
         \<or> variable_list p = []
         \<or> first_year < 1 \<or> last_year < 1 \<or> last_year < first_year
         \<or> last_year - first_year + 1 > int (unat COASTDAT_NUM_YEARS))"

text \<open>
  The specification's words, for comparison with the code. The pooled extent is the
  ceiling of the quotient of extent and pooling size. A sample of the raw block, whose
  native layout is (time, latitude, longitude), and the mean of the samples of time step
  \<open>t\<close> in the window of the destination cell \<open>(x, y)\<close>. The path of a source unit with
  the relative year converted back to the calendar year.
\<close>

definition spec_pooled_extent :: "nat \<Rightarrow> nat \<Rightarrow> nat" where
  "spec_pooled_extent extent poolingSize = nat \<lceil>(of_nat extent :: rat) / of_nat poolingSize\<rceil>"

definition sample :: "RawBlock \<Rightarrow> nat \<Rightarrow> nat \<Rightarrow> nat \<Rightarrow> Scalar" where
  "sample buffer t lat lon = block_raw buffer ((t * width buffer + lat) * height buffer + lon)"

definition spec_pooled_value :: "nat \<Rightarrow> RawBlock \<Rightarrow> nat \<Rightarrow> Index \<Rightarrow> Index \<Rightarrow> Scalar" where
  "spec_pooled_value poolingSize buffer t x y =
     (let rows = min poolingSize (width buffer - y * poolingSize);
          cols = min poolingSize (height buffer - x * poolingSize)
      in (\<Sum>lat \<leftarrow> [y * poolingSize ..< y * poolingSize + rows].
            \<Sum>lon \<leftarrow> [x * poolingSize ..< x * poolingSize + cols]. sample buffer t lat lon)
         / of_nat (rows * cols))"

definition spec_filename :: "string \<Rightarrow> nat \<Rightarrow> string" where
  "spec_filename var relative_year =
     COASTDAT_PATH @ var @ ''/coastDat-1_Waves_'' @ var @ ''_''
       @ format_03u (relative_year + unat COASTDAT_FIRST_YEAR - 1) @ ''.nc''"

subsection \<open>Concrete inputs\<close>

text \<open>
  A backend on which every call succeeds. The files of year 1 hold two time steps, all
  other files one; the samples of a block are 10, 20, 30, ... in storage order.
\<close>

definition sample_nc :: nc_backend where
  "sample_nc = \<lparr> nc_open = (\<lambda>filename. 0),
                 nc_inq_varid = (\<lambda>filename var. (0, 0)),
                 nc_inq_dimid = (\<lambda>filename dim. (0, 0)),
                 nc_inq_dimlen = (\<lambda>filename dim_id.
                    (0, if filename = coastdat_filename ''ff'' 1
                           \<or> filename = coastdat_filename ''hs'' 1 then 2 else 1)),
                 nc_get_vara = (\<lambda>filename var_id start len. (0, \<lambda>i. of_nat (10 * (i + 1)))) \<rparr>"

text \<open>
  The same backend, except that the file of the variable \<open>hs\<close> for year 1 cannot be
  opened: the library reports the code -31 there.
\<close>

definition missing_nc :: nc_backend where
  "missing_nc = sample_nc \<lparr> nc_open := (\<lambda>filename.
                   if filename = coastdat_filename ''hs'' 1 then - 31 else 0) \<rparr>"

text \<open>A MaxDiv library whose analysis routine reports the code 7 and leaves the buffer alone.\<close>

definition failing_lib :: "(unit, unit) maxdiv_lib" where
  "failing_lib = \<lparr> maxdiv = (\<lambda>ps T buf. (7, buf)), determineContextWindowSize = (\<lambda>T. 5) \<rparr>"

text \<open>The preset of \<open>maxdiv_coastdat_default_params\<close> as a value.\<close>

definition preset :: coastdat_params_t where
  "preset = \<lparr> variables = ''ff,hs,mp'', firstYear = 1, lastYear = 50, firstLat = 53,
               lastLat = 100, firstLon = 30, lastLon = 98, spatialPoolingSize = 4 \<rparr>"

text \<open>Regions of a single grid cell without pooling.\<close>

definition cell_region :: "string \<Rightarrow> 32 word \<Rightarrow> 32 word \<Rightarrow> coastdat_params_t" where
  "cell_region vars first_year last_year =
     \<lparr> variables = vars, firstYear = first_year, lastYear = last_year, firstLat = 0,
       lastLat = 0, firstLon = 0, lastLon = 0, spatialPoolingSize = 1 \<rparr>"

section \<open>Properties\<close>

subsection \<open>Year normalisation\<close>

lemma normalize_year_bound: "unat (normalize_year y) \<le> 2 ^ 32 - 1958"
  unfolding normalize_year_def COASTDAT_FIRST_YEAR_def
  by (auto simp: word_le_nat_alt unat_sub unat_word_ariths) (unat_arith; simp)+

text \<open>
  Claim C6. A year that is at least \<open>COASTDAT_FIRST_YEAR\<close> is taken as a calendar year
  and becomes the 1-based index \<open>year - COASTDAT_FIRST_YEAR + 1\<close> (the 32-bit arithmetic
  does not wrap there); a smaller year is left as it is. So a relative index \<open>r\<close> from 1
  up to (not including) \<open>COASTDAT_FIRST_YEAR\<close> and the calendar year of that index,
  \<open>r + COASTDAT_FIRST_YEAR - 1\<close>, are normalised to the same value \<open>r\<close>.
\<close>

theorem normalize_year_absolute_or_relative:
  "(COASTDAT_FIRST_YEAR \<le> y \<longrightarrow>
      normalize_year y = y - COASTDAT_FIRST_YEAR + 1 \<and>
      int (unat (normalize_year y)) = int (unat y) - int (unat COASTDAT_FIRST_YEAR) + 1) \<and>
   (y < COASTDAT_FIRST_YEAR \<longrightarrow> normalize_year y = y) \<and>
   (1 \<le> r \<and> r < COASTDAT_FIRST_YEAR \<longrightarrow>
      normalize_year (r + COASTDAT_FIRST_YEAR - 1) = r \<and> normalize_year r = r)"
proof (intro conjI impI)
  assume h: "COASTDAT_FIRST_YEAR \<le> y"
  then show "normalize_year y = y - COASTDAT_FIRST_YEAR + 1"
    by (simp add: normalize_year_def)
  from h show "int (unat (normalize_year y)) = int (unat y) - int (unat COASTDAT_FIRST_YEAR) + 1"
  proof -
    from h have a: "1958 \<le> unat y" and b: "(1957 :: 32 word) \<le> y"
      unfolding COASTDAT_FIRST_YEAR_def by (simp_all add: word_le_nat_alt)
    have "normalize_year y = y - 1957"
      using h by (simp add: normalize_year_def COASTDAT_FIRST_YEAR_def)
    then have "unat (normalize_year y) = unat y - 1957"
      using b by (simp add: unat_sub)
    with a show ?thesis by (simp add: COASTDAT_FIRST_YEAR_def)
  qed
next
  assume "y < COASTDAT_FIRST_YEAR"
  then show "normalize_year y = y"
    by (simp add: normalize_year_def not_le [symmetric])
next
  assume h: "1 \<le> r \<and> r < COASTDAT_FIRST_YEAR"
  then show "normalize_year r = r"
    by (simp add: normalize_year_def not_le [symmetric])
  from h have a: "1 \<le> unat r" and b: "unat r < 1958"
    unfolding COASTDAT_FIRST_YEAR_def by (simp_all add: word_le_nat_alt word_less_nat_alt)
  have "unat (r + 1957) = (unat r + 1957) mod 2 ^ 32"
    by (simp add: unat_word_ariths)
  with a b have "unat (r + 1957) = unat r + 1957" by simp
  with a have "(1958 :: 32 word) \<le> r + 1957"
    by (simp add: word_le_nat_alt)
  then have "COASTDAT_FIRST_YEAR \<le> r + COASTDAT_FIRST_YEAR - 1"
    by (simp add: COASTDAT_FIRST_YEAR_def add.commute)
  then show "normalize_year (r + COASTDAT_FIRST_YEAR - 1) = r"
    by (simp add: normalize_year_def)
qed

text \<open>The example of the claim: the calendar year 1960 and the relative year 3.\<close>

theorem normalize_year_1960_witness:
  "COASTDAT_FIRST_YEAR \<le> 1960 \<and> (1 :: 32 word) \<le> 3 \<and> 3 < COASTDAT_FIRST_YEAR
   \<and> normalize_year 1960 = 3 \<and> normalize_year 3 = 3
   \<and> normalize_year (3 + COASTDAT_FIRST_YEAR - 1) = normalize_year 3"
  using normalize_year_absolute_or_relative [of 1960 3] by (simp add: COASTDAT_FIRST_YEAR_def)

subsection \<open>The default parameters and null pointers\<close>

text \<open>
  Claim C9. Given a structure, \<open>maxdiv_coastdat_default_params\<close> leaves it with the
  variables \<open>ff,hs,mp\<close>, the years 1 to 50, the latitudes 53 to 100, the longitudes 30 to
  98 and the pooling size 4, whatever it held before.
\<close>

theorem default_params_preset:
  "maxdiv_coastdat_default_params (Some p) =
     Some \<lparr> variables = ''ff,hs,mp'', firstYear = 1, lastYear = 50, firstLat = 53,
            lastLat = 100, firstLon = 30, lastLon = 98, spatialPoolingSize = 4 \<rparr>"
  by (simp add: maxdiv_coastdat_default_params_def)

theorem default_params_preset_witness:
  "maxdiv_coastdat_default_params (Some (cell_region ''dd'' 7 9)) = Some preset"
  using default_params_preset [of "cell_region ''dd'' 7 9"] by (simp add: preset_def)

text \<open>
  Claim C10. With a null \<open>params\<close>, \<open>maxdiv_coastdat\<close> returns 1, opens no file, calls
  nothing and leaves the detection buffer as it was. With a null \<open>data_params\<close>,
  \<open>read_coastdat\<close> returns 1, opens no file and leaves the tensor as it was, so that
  \<open>maxdiv_coastdat\<close> returns 1 and \<open>maxdiv_coastdat_context_window_size\<close> returns 0
  without any event. \<open>maxdiv_coastdat_default_params\<close> does nothing on a null pointer.
\<close>

theorem null_pointers_tolerated:
  "maxdiv_coastdat nc lib None data_params detection_buf = (1, detection_buf, [])
   \<and> read_coastdat nc None coastData = (1, coastData, [])
   \<and> maxdiv_coastdat nc lib (Some ps) None detection_buf = (1, detection_buf, [])
   \<and> maxdiv_coastdat_context_window_size nc lib None = (0, [])
   \<and> maxdiv_coastdat_default_params None = None"
  by (simp add: maxdiv_coastdat_def read_coastdat_def maxdiv_coastdat_context_window_size_def
      maxdiv_coastdat_default_params_def)

theorem null_pointers_tolerated_witness:
  "maxdiv_coastdat sample_nc failing_lib None (Some preset) () = (1, (), [])
   \<and> read_coastdat sample_nc None empty_tensor = (1, empty_tensor, [])
   \<and> maxdiv_coastdat_default_params None = None"
  using null_pointers_tolerated [of sample_nc failing_lib "Some preset" "()" empty_tensor "()"]
  by simp

subsection \<open>One iteration of each loop\<close>

lemma measuring_loop_step_ok:
  "query_ok nc (vars ! 0) year \<Longrightarrow>
   measuring_loop nc vars (year # years) shape_t trace =
   measuring_loop nc vars years (shape_t + reported_time_extent nc (vars ! 0) year)
     (trace @ [NcOpen (coastdat_filename (vars ! 0) year)])"
  by (simp add: query_ok_def reported_time_extent_def Let_def case_prod_beta)

lemma measuring_loop_step_fail:
  "\<not> query_ok nc (vars ! 0) year \<Longrightarrow>
   \<exists>status. status \<noteq> 0 \<and> measuring_loop nc vars (year # years) shape_t trace =
     (status, shape_t, trace @ [NcOpen (coastdat_filename (vars ! 0) year)])"
  by (auto simp: query_ok_def NC_NOERR_def Let_def case_prod_beta)

lemma variable_loop_step_ok:
  "read_ok nc p (vars ! d) year \<Longrightarrow>
   variable_loop nc p vars shape year timeOffset (d # ds) dim_len coastData trace =
   variable_loop nc p vars shape year timeOffset ds (reported_time_extent nc (vars ! d) year)
     (average_pooling (unat (spatialPoolingSize p)) shape (raw_block nc p (vars ! d) year)
        (reported_time_extent nc (vars ! d) year) timeOffset d coastData)
     (trace @ [NcOpen (coastdat_filename (vars ! d) year)])"
  by (simp add: read_ok_def query_ok_def reported_time_extent_def raw_block_def Let_def case_prod_beta)

lemma variable_loop_step_fail:
  "\<not> read_ok nc p (vars ! d) year \<Longrightarrow>
   \<exists>status dim_len'. status \<noteq> 0 \<and>
     variable_loop nc p vars shape year timeOffset (d # ds) dim_len coastData trace =
     (status, dim_len', coastData, trace @ [NcOpen (coastdat_filename (vars ! d) year)])"
  by (auto simp: read_ok_def query_ok_def reported_time_extent_def NC_NOERR_def Let_def case_prod_beta)

lemma measuring_loop_trace:
  "\<exists>tr. snd (snd (measuring_loop nc vars years shape_t trace)) = trace @ tr
        \<and> set tr \<subseteq> (\<lambda>year. NcOpen (coastdat_filename (vars ! 0) year)) ` set years
        \<and> (years \<noteq> [] \<longrightarrow> tr \<noteq> [])"
proof (induction years arbitrary: shape_t trace)
  case Nil
  then show ?case by simp
next
  case (Cons year years)
  let ?e = "NcOpen (coastdat_filename (vars ! 0) year)"
  show ?case
  proof (cases "query_ok nc (vars ! 0) year")
    case True
    from Cons.IH [of "shape_t + reported_time_extent nc (vars ! 0) year" "trace @ [?e]"]
    obtain tr where
      "snd (snd (measuring_loop nc vars years (shape_t + reported_time_extent nc (vars ! 0) year)
         (trace @ [?e]))) = (trace @ [?e]) @ tr"
      "set tr \<subseteq> (\<lambda>year. NcOpen (coastdat_filename (vars ! 0) year)) ` set years" by blast
    then show ?thesis
      unfolding measuring_loop_step_ok [OF True] by (intro exI [of _ "?e # tr"]) auto
  next
    case False
    from measuring_loop_step_fail [OF False, of years shape_t trace]
    show ?thesis by (intro exI [of _ "[?e]"]) auto
  qed
qed

lemma variable_loop_trace:
  "\<exists>tr. snd (snd (snd (variable_loop nc p vars shape year timeOffset ds dim_len coastData trace)))
          = trace @ tr
        \<and> set tr \<subseteq> (\<lambda>d. NcOpen (coastdat_filename (vars ! d) year)) ` set ds"
proof (induction ds arbitrary: dim_len coastData trace)
  case Nil
  then show ?case by simp
next
  case (Cons d ds)
  let ?e = "NcOpen (coastdat_filename (vars ! d) year)"
  show ?case
  proof (cases "read_ok nc p (vars ! d) year")
    case True
    from Cons.IH [of "reported_time_extent nc (vars ! d) year" _ "trace @ [?e]"]
    obtain tr where
      "snd (snd (snd (variable_loop nc p vars shape year timeOffset ds
          (reported_time_extent nc (vars ! d) year)
          (average_pooling (unat (spatialPoolingSize p)) shape (raw_block nc p (vars ! d) year)
             (reported_time_extent nc (vars ! d) year) timeOffset d coastData)
          (trace @ [?e])))) = (trace @ [?e]) @ tr"
      "set tr \<subseteq> (\<lambda>d. NcOpen (coastdat_filename (vars ! d) year)) ` set ds" by blast
    then show ?thesis
      unfolding variable_loop_step_ok [OF True] by (intro exI [of _ "?e # tr"]) auto
  next
    case False
    from variable_loop_step_fail [OF False, of shape timeOffset ds dim_len coastData trace]
    show ?thesis by (intro exI [of _ "[?e]"]) auto
  qed
qed

lemma year_loop_trace:
  "\<exists>tr. snd (snd (year_loop nc p vars shape years timeOffset dim_len coastData trace)) = trace @ tr
        \<and> set tr \<subseteq> {NcOpen (coastdat_filename (vars ! d) year) | d year.
                       d < length vars \<and> year \<in> set years}"
proof (induction years arbitrary: timeOffset dim_len coastData trace)
  case Nil
  then show ?case by simp
next
  case (Cons year years)
  obtain status dim_len' coastData' trace' where v:
    "variable_loop nc p vars shape year timeOffset [0 ..< length vars] dim_len coastData trace
       = (status, dim_len', coastData', trace')"
    by (metis prod_cases4)
  from variable_loop_trace [of nc p vars shape year timeOffset "[0 ..< length vars]" dim_len coastData trace]
  obtain tr1 where tr1: "trace' = trace @ tr1"
    "set tr1 \<subseteq> (\<lambda>d. NcOpen (coastdat_filename (vars ! d) year)) ` set [0 ..< length vars]"
    unfolding v by auto
  show ?case
  proof (cases "status = 0")
    case False
    with v tr1 show ?thesis by (intro exI [of _ tr1]) (force simp: subset_iff image_iff)
  next
    case True
    from Cons.IH [of "timeOffset + dim_len'" dim_len' coastData' trace']
    obtain tr2 where "snd (snd (year_loop nc p vars shape years (timeOffset + dim_len') dim_len'
        coastData' trace')) = trace' @ tr2"
      "set tr2 \<subseteq> {NcOpen (coastdat_filename (vars ! d) year) | d year.
                       d < length vars \<and> year \<in> set years}" by blast
    with v tr1 True show ?thesis by (intro exI [of _ "tr1 @ tr2"]) (force simp: subset_iff image_iff)
  qed
qed

lemma read_coastdat_trace:
  "set (snd (snd (read_coastdat nc (Some p) coastData)))
     \<subseteq> {NcOpen (coastdat_filename (variable_list p ! d) year) | d year.
          d < length (variable_list p) \<and> year \<in> set (selected_years p)}"
proof -
  let ?vars = "variable_list p" and ?years = "selected_years p"
  let ?S = "{NcOpen (coastdat_filename (?vars ! d) year) | d year.
          d < length ?vars \<and> year \<in> set ?years}"
  obtain status shape_t tr where m: "measuring_loop nc ?vars ?years 0 [] = (status, shape_t, tr)"
    by (metis prod_cases3)
  have tr: "?vars \<noteq> [] \<Longrightarrow> set tr \<subseteq> ?S"
    using measuring_loop_trace [of nc ?vars ?years 0 "[]"] unfolding m by (force simp: subset_iff image_iff)
  have "\<And>shape T. ?vars \<noteq> [] \<Longrightarrow> set (snd (snd (year_loop nc p ?vars shape ?years 0 0 T tr))) \<subseteq> ?S"
  proof -
    fix shape T assume ne: "?vars \<noteq> []"
    from year_loop_trace [of nc p ?vars shape ?years 0 0 T tr]
    obtain tr2 where "snd (snd (year_loop nc p ?vars shape ?years 0 0 T tr)) = tr @ tr2" "set tr2 \<subseteq> ?S"
      by blast
    with tr [OF ne] show "set (snd (snd (year_loop nc p ?vars shape ?years 0 0 T tr))) \<subseteq> ?S" by simp
  qed
  with tr m show ?thesis
    unfolding read_coastdat_def variable_list_def [symmetric] Let_def
    by (simp add: selected_years_def [symmetric] del: upt_Suc)
qed

subsection \<open>Validation of the region\<close>

lemma span_no_wrap:
  assumes "\<not> normalize_year b < normalize_year a"
  shows "unat (normalize_year b - normalize_year a + 1)
         = unat (normalize_year b) - unat (normalize_year a) + 1"
proof -
  from assms have le: "normalize_year a \<le> normalize_year b" by simp
  then have "unat (normalize_year b - normalize_year a)
             = unat (normalize_year b) - unat (normalize_year a)"
    by (simp add: unat_sub)
  moreover have "unat (normalize_year b) - unat (normalize_year a) \<le> 2 ^ 32 - 1958"
    using normalize_year_bound [of b] by simp
  moreover have "unat (normalize_year b - normalize_year a + 1)
     = (unat (normalize_year b - normalize_year a) + 1) mod 2 ^ 32"
    by (simp add: unat_word_ariths)
  ultimately show ?thesis by simp
qed

lemma invalid_region_code:
  "invalid_region p \<longleftrightarrow>
     (spatialPoolingSize p < 1 \<or> int (length (variable_list p)) < 1
      \<or> normalize_year (firstYear p) < 1 \<or> normalize_year (lastYear p) < 1
      \<or> normalize_year (lastYear p) < normalize_year (firstYear p)
      \<or> normalize_year (lastYear p) - normalize_year (firstYear p) + 1 > COASTDAT_NUM_YEARS)"
proof -
  let ?fy = "normalize_year (firstYear p)" and ?ly = "normalize_year (lastYear p)"
  have lt: "(a < b) = (uint a < uint b)" for a b :: "32 word"
    by (simp add: word_less_def)
  have pool: "(spatialPoolingSize p < 1) = (unat (spatialPoolingSize p) < 1)"
    by (simp add: word_less_nat_alt)
  have span: "uint (?ly - ?fy + 1) = uint ?ly - uint ?fy + 1" if "\<not> ?ly < ?fy"
  proof -
    from that have le: "unat ?fy \<le> unat ?ly"
      by (simp add: word_less_nat_alt)
    have "int (unat (?ly - ?fy + 1)) = int (unat ?ly - unat ?fy + 1)"
      using span_no_wrap [OF that] by simp
    also have "\<dots> = int (unat ?ly) - int (unat ?fy) + 1"
      using le by (simp add: of_nat_diff)
    finally show ?thesis by simp
  qed
  have vars: "(int (length (variable_list p)) < 1) = (variable_list p = [])"
    by (cases "variable_list p") simp_all
  show ?thesis
  proof (cases "?ly < ?fy")
    case True
    then show ?thesis
      unfolding invalid_region_def Let_def pool vars by (simp add: lt)
  next
    case False
    from span [OF False] show ?thesis
      unfolding invalid_region_def Let_def pool vars
      by (simp add: lt COASTDAT_NUM_YEARS_def)
  qed
qed

lemma read_coastdat_invalid:
  "invalid_region p \<Longrightarrow> read_coastdat nc (Some p) coastData = (1, coastData, [])"
  unfolding invalid_region_code
  by (auto simp: read_coastdat_def variable_list_def Let_def)

lemma read_coastdat_valid:
  assumes "\<not> invalid_region p"
  shows "read_coastdat nc (Some p) coastData =
     (let (status, shape_t, trace) = measuring_loop nc (variable_list p) (selected_years p) 0 []
      in if status \<noteq> 0 then (status, coastData, trace)
         else let shape = \<lparr> ind_t = shape_t, ind_x = shape_x p, ind_y = shape_y p,
                        ind_z = 1, ind_d = length (variable_list p) \<rparr>
              in year_loop nc p (variable_list p) shape (selected_years p) 0 0
                   (resize shape coastData) trace)"
  using assms unfolding invalid_region_code read_coastdat_def variable_list_def selected_years_def
  by (simp add: Let_def del: upt_Suc)

lemma selected_years_nonempty: "\<not> invalid_region p \<Longrightarrow> selected_years p \<noteq> []"
  unfolding invalid_region_code
  by (auto simp: selected_years_def word_less_nat_alt)

lemma read_coastdat_valid_trace:
  assumes "\<not> invalid_region p"
  shows "snd (snd (read_coastdat nc (Some p) coastData)) \<noteq> []"
proof -
  let ?vars = "variable_list p" and ?years = "selected_years p"
  obtain status shape_t tr where m: "measuring_loop nc ?vars ?years 0 [] = (status, shape_t, tr)"
    by (metis prod_cases3)
  have tr: "tr \<noteq> []"
    using measuring_loop_trace [of nc ?vars ?years 0 "[]"] selected_years_nonempty [OF assms]
    unfolding m by auto
  have "snd (snd (year_loop nc p ?vars shape ?years 0 0 T tr)) \<noteq> []" for shape T
    using year_loop_trace [of nc p ?vars shape ?years 0 0 T tr] tr by auto
  with tr m show ?thesis
    unfolding read_coastdat_valid [OF assms] by (simp add: Let_def)
qed

text \<open>
  Claim C7. For a non-null parameter structure, \<open>read_coastdat\<close> returns 1 without
  opening any file exactly when the region is invalid: the pooling size is below 1, the
  variable list is empty after lower-casing and splitting, or the converted years are
  below 1, out of order or span more than \<open>COASTDAT_NUM_YEARS\<close> years. In that case
  the tensor is untouched as well; for every other region at least one file is opened.
\<close>

theorem invalid_region_no_io:
  "((fst (read_coastdat nc (Some p) coastData) = 1
       \<and> snd (snd (read_coastdat nc (Some p) coastData)) = []) \<longleftrightarrow> invalid_region p)
   \<and> (invalid_region p \<longrightarrow> read_coastdat nc (Some p) coastData = (1, coastData, []))
   \<and> (\<not> invalid_region p \<longrightarrow> snd (snd (read_coastdat nc (Some p) coastData)) \<noteq> [])"
  using read_coastdat_invalid [of p nc coastData] read_coastdat_valid_trace [of p nc coastData]
  by auto

text \<open>
  The last year before the first (scenario C of the specification), and a valid region.
\<close>

theorem invalid_region_no_io_witness:
  "invalid_region (cell_region ''ff'' 5 3)
   \<and> read_coastdat sample_nc (Some (cell_region ''ff'' 5 3)) empty_tensor = (1, empty_tensor, [])
   \<and> \<not> invalid_region (cell_region ''ff'' 3 5)
   \<and> snd (snd (read_coastdat sample_nc (Some (cell_region ''ff'' 3 5)) empty_tensor)) \<noteq> []"
proof -
  have a: "invalid_region (cell_region ''ff'' 5 3)" by code_simp
  have b: "\<not> invalid_region (cell_region ''ff'' 3 5)" by code_simp
  from a b invalid_region_no_io [of sample_nc "cell_region ''ff'' 5 3" empty_tensor]
    invalid_region_no_io [of sample_nc "cell_region ''ff'' 3 5" empty_tensor]
  show ?thesis by simp
qed

lemma format_03u_three_digits: "year < 1000 \<Longrightarrow> length (format_03u year) = 3"
proof -
  assume h: "year < 1000"
  have "length (decimal year) \<le> 3"
    using h by (simp add: decimal.simps [of year] decimal.simps [of "year div 10"]
        decimal.simps [of "year div 10 div 10"])
  then show ?thesis by (simp add: format_03u_def)
qed

text \<open>
  Claim C4, as amended. Every path that \<open>read_coastdat\<close> opens is built from a variable
  of the list and a year \<open>year\<close> of the normalised range, that is, the 1-based relative
  year index and not the calendar year: it is \<open>COASTDAT_PATH\<close>, the variable, the text
  \<open>/coastDat-1_Waves_\<close>, the variable again, an underscore, the year index padded with
  zeros to three digits (exactly three for an index below 1000) and \<open>.nc\<close>.
\<close>

theorem opened_paths_relative_year:
  assumes "NcOpen path \<in> set (snd (snd (read_coastdat nc (Some p) coastData)))"
  shows "\<exists>d year. d < length (variable_list p)
           \<and> unat (normalize_year (firstYear p)) \<le> year
           \<and> year \<le> unat (normalize_year (lastYear p))
           \<and> path = COASTDAT_PATH @ variable_list p ! d @ ''/coastDat-1_Waves_''
                     @ variable_list p ! d @ ''_'' @ format_03u year @ ''.nc''
           \<and> (year < 1000 \<longrightarrow> length (format_03u year) = 3)"
proof -
  from assms read_coastdat_trace [of nc p coastData]
  obtain d year where "d < length (variable_list p)" "year \<in> set (selected_years p)"
    "path = coastdat_filename (variable_list p ! d) year" by auto
  then show ?thesis
    using format_03u_three_digits [of year]
    by (intro exI [of _ d] exI [of _ year]) (auto simp: selected_years_def coastdat_filename_def)
qed

text \<open>
  A region given with the calendar year 1960: the file of the relative year 3 is opened.
\<close>

theorem opened_paths_relative_year_witness:
  "NcOpen ''/home/barz/anomaly-detection/CoastDat-raw/ff/coastDat-1_Waves_ff_003.nc''
     \<in> set (snd (snd (read_coastdat sample_nc (Some (cell_region ''ff'' 1960 1960)) empty_tensor)))
   \<and> (\<exists>d year. d < length (variable_list (cell_region ''ff'' 1960 1960))
           \<and> unat (normalize_year 1960) \<le> year \<and> year \<le> unat (normalize_year 1960)
           \<and> ''/home/barz/anomaly-detection/CoastDat-raw/ff/coastDat-1_Waves_ff_003.nc''
               = COASTDAT_PATH @ variable_list (cell_region ''ff'' 1960 1960) ! d @ ''/coastDat-1_Waves_''
                     @ variable_list (cell_region ''ff'' 1960 1960) ! d @ ''_'' @ format_03u year @ ''.nc'')"
proof -
  have a: "NcOpen ''/home/barz/anomaly-detection/CoastDat-raw/ff/coastDat-1_Waves_ff_003.nc''
     \<in> set (snd (snd (read_coastdat sample_nc (Some (cell_region ''ff'' 1960 1960)) empty_tensor)))"
    by code_simp
  from opened_paths_relative_year [OF a] a show ?thesis
    by (auto simp: cell_region_def)
qed

text \<open>
  Claim C4 as stated fails: for the calendar year 1960 (relative year 3) the file opened
  carries \<open>003\<close>, not the calendar year that the relative year converts back to.
\<close>

theorem absolute_year_path_counterexample:
  "snd (snd (read_coastdat sample_nc (Some (cell_region ''ff'' 1960 1960)) empty_tensor))
     = [NcOpen ''/home/barz/anomaly-detection/CoastDat-raw/ff/coastDat-1_Waves_ff_003.nc'',
        NcOpen ''/home/barz/anomaly-detection/CoastDat-raw/ff/coastDat-1_Waves_ff_003.nc'']
   \<and> spec_filename ''ff'' 3 = ''/home/barz/anomaly-detection/CoastDat-raw/ff/coastDat-1_Waves_ff_1960.nc''
   \<and> NcOpen (spec_filename ''ff'' 3)
       \<notin> set (snd (snd (read_coastdat sample_nc (Some (cell_region ''ff'' 1960 1960)) empty_tensor)))"
  by code_simp

subsection \<open>The entry points: what becomes of the status\<close>

lemma read_coastdat_only_opens:
  "CallMaxdiv \<notin> set (snd (snd (read_coastdat nc data_params coastData)))
   \<and> CallDetermineContextWindowSize \<notin> set (snd (snd (read_coastdat nc data_params coastData)))"
proof (cases data_params)
  case None
  then show ?thesis by (simp add: read_coastdat_def)
next
  case (Some p)
  with read_coastdat_trace [of nc p coastData] show ?thesis by auto
qed

text \<open>
  Claim C3, as amended. When \<open>read_coastdat\<close> succeeds, \<open>maxdiv_coastdat\<close> calls the
  analysis routine once, on the tensor that was read and after all files were opened,
  leaves the detection buffer as the routine left it, and returns 0 whatever code the
  routine reports.
\<close>

theorem maxdiv_coastdat_returns_zero:
  assumes "fst (read_coastdat nc data_params empty_tensor) = 0"
  shows "maxdiv_coastdat nc lib (Some ps) data_params detection_buf =
           (0,
            snd (maxdiv lib ps (fst (snd (read_coastdat nc data_params empty_tensor))) detection_buf),
            snd (snd (read_coastdat nc data_params empty_tensor)) @ [CallMaxdiv])"
  using assms by (simp add: maxdiv_coastdat_def case_prod_beta)

text \<open>
  One variable, one year, one grid cell, with a library whose routine reports 7.
\<close>

theorem maxdiv_coastdat_returns_zero_witness:
  "fst (read_coastdat sample_nc (Some (cell_region ''ff'' 1 1)) empty_tensor) = 0
   \<and> maxdiv_coastdat sample_nc failing_lib (Some ()) (Some (cell_region ''ff'' 1 1)) () =
        (0, (), snd (snd (read_coastdat sample_nc (Some (cell_region ''ff'' 1 1)) empty_tensor))
                @ [CallMaxdiv])"
proof -
  have a: "fst (read_coastdat sample_nc (Some (cell_region ''ff'' 1 1)) empty_tensor) = 0"
    by code_simp
  from maxdiv_coastdat_returns_zero [OF a, of failing_lib "()" "()"] a show ?thesis by simp
qed

text \<open>
  Claim C3 as stated fails: the read succeeds, the analysis routine reports the code 7 on
  the tensor, and \<open>maxdiv_coastdat\<close> returns 0.
\<close>

theorem analysis_code_dropped_counterexample:
  "fst (read_coastdat sample_nc (Some (cell_region ''ff'' 1 1)) empty_tensor) = 0
   \<and> fst (maxdiv failing_lib ()
            (fst (snd (read_coastdat sample_nc (Some (cell_region ''ff'' 1 1)) empty_tensor))) ()) = 7
   \<and> fst (maxdiv_coastdat sample_nc failing_lib (Some ()) (Some (cell_region ''ff'' 1 1)) ()) = 0"
  by code_simp

text \<open>
  Claim C8, as amended. When \<open>read_coastdat\<close> fails, \<open>maxdiv_coastdat\<close> returns its
  status unchanged, leaves the detection buffer alone and does not call the analysis
  routine; \<open>maxdiv_coastdat_context_window_size\<close> returns 0 in place of the status and
  does not call the sizing function. Neither adds an event to those of the read.
\<close>

theorem read_failure_surfaced:
  assumes "fst (read_coastdat nc data_params empty_tensor) \<noteq> 0"
  shows "maxdiv_coastdat nc lib (Some ps) data_params detection_buf =
           (fst (read_coastdat nc data_params empty_tensor), detection_buf,
            snd (snd (read_coastdat nc data_params empty_tensor)))
         \<and> maxdiv_coastdat_context_window_size nc lib data_params =
           (0, snd (snd (read_coastdat nc data_params empty_tensor)))
         \<and> CallMaxdiv \<notin> set (snd (snd (maxdiv_coastdat nc lib (Some ps) data_params detection_buf)))
         \<and> CallDetermineContextWindowSize
             \<notin> set (snd (maxdiv_coastdat_context_window_size nc lib data_params))"
  using assms read_coastdat_only_opens [of nc data_params empty_tensor]
  by (simp add: maxdiv_coastdat_def maxdiv_coastdat_context_window_size_def case_prod_beta)

text \<open>
  The second file of the streaming loop cannot be opened: the status is -31.
\<close>

theorem read_failure_surfaced_witness:
  "fst (read_coastdat missing_nc (Some (cell_region ''ff,hs'' 1 1)) empty_tensor) = - 31
   \<and> fst (maxdiv_coastdat missing_nc failing_lib (Some ()) (Some (cell_region ''ff,hs'' 1 1)) ()) = - 31
   \<and> fst (maxdiv_coastdat_context_window_size missing_nc failing_lib (Some (cell_region ''ff,hs'' 1 1))) = 0
   \<and> CallMaxdiv \<notin> set (snd (snd (maxdiv_coastdat missing_nc failing_lib (Some ())
                                   (Some (cell_region ''ff,hs'' 1 1)) ())))"
proof -
  have a: "fst (read_coastdat missing_nc (Some (cell_region ''ff,hs'' 1 1)) empty_tensor) = - 31"
    by code_simp
  then have b: "fst (read_coastdat missing_nc (Some (cell_region ''ff,hs'' 1 1)) empty_tensor) \<noteq> 0"
    by simp
  note r = read_failure_surfaced [OF b, of failing_lib "()" "()"]
  from r have "fst (maxdiv_coastdat missing_nc failing_lib (Some ()) (Some (cell_region ''ff,hs'' 1 1)) ())
                 = fst (read_coastdat missing_nc (Some (cell_region ''ff,hs'' 1 1)) empty_tensor)"
    by simp
  moreover from r have "fst (maxdiv_coastdat_context_window_size missing_nc failing_lib
                               (Some (cell_region ''ff,hs'' 1 1))) = 0"
    by simp
  moreover from r have "CallMaxdiv \<notin> set (snd (snd (maxdiv_coastdat missing_nc failing_lib (Some ())
                                   (Some (cell_region ''ff,hs'' 1 1)) ())))"
    by blast
  ultimately show ?thesis using a by simp
qed

text \<open>
  Claim C8 as stated fails for the second entry point: the read fails with -31 and
  \<open>maxdiv_coastdat_context_window_size\<close> returns 0.
\<close>

theorem window_size_error_counterexample:
  "fst (read_coastdat missing_nc (Some (cell_region ''ff,hs'' 1 1)) empty_tensor) = - 31
   \<and> fst (maxdiv_coastdat_context_window_size missing_nc failing_lib
            (Some (cell_region ''ff,hs'' 1 1))) = 0"
  by code_simp

subsection \<open>Average pooling in closed form\<close>

lemma tensor_shape_write [simp]: "tensor_shape (tensor_write i v T) = tensor_shape T"
  by (simp add: tensor_write_def)

lemma tensor_data_write [simp]:
  "tensor_data (tensor_write i v T) j = (if j = i then Some v else tensor_data T j)"
  by (simp add: tensor_write_def)

lemma fold_write_y:
  "tensor_shape (fold (\<lambda>y. tensor_write (a, b, y, 0, d) (v y)) [0 ..< n] T) = tensor_shape T
   \<and> tensor_data (fold (\<lambda>y. tensor_write (a, b, y, 0, d) (v y)) [0 ..< n] T) (t', x', y', z', d')
     = (if t' = a \<and> x' = b \<and> y' < n \<and> z' = 0 \<and> d' = d then Some (v y')
        else tensor_data T (t', x', y', z', d'))"
  by (induction n) (auto simp: less_Suc_eq)

lemma fold_write_xy:
  "tensor_shape (fold (\<lambda>x. fold (\<lambda>y. tensor_write (a, x, y, 0, d) (v x y)) [0 ..< n]) [0 ..< m] T)
     = tensor_shape T
   \<and> tensor_data (fold (\<lambda>x. fold (\<lambda>y. tensor_write (a, x, y, 0, d) (v x y)) [0 ..< n]) [0 ..< m] T)
       (t', x', y', z', d')
     = (if t' = a \<and> x' < m \<and> y' < n \<and> z' = 0 \<and> d' = d then Some (v x' y')
        else tensor_data T (t', x', y', z', d'))"
  by (induction m) (auto simp: less_Suc_eq fold_write_y)

lemma fold_write_txy:
  "tensor_shape (fold (\<lambda>t. fold (\<lambda>x. fold (\<lambda>y. tensor_write (off + t, x, y, 0, d) (v t x y))
       [0 ..< n]) [0 ..< m]) [0 ..< l] T) = tensor_shape T
   \<and> tensor_data (fold (\<lambda>t. fold (\<lambda>x. fold (\<lambda>y. tensor_write (off + t, x, y, 0, d) (v t x y))
       [0 ..< n]) [0 ..< m]) [0 ..< l] T) (t', x', y', z', d')
     = (if off \<le> t' \<and> t' < off + l \<and> x' < m \<and> y' < n \<and> z' = 0 \<and> d' = d
        then Some (v (t' - off) x' y')
        else tensor_data T (t', x', y', z', d'))"
proof (induction l)
  case 0
  then show ?case by auto
next
  case (Suc l)
  have "t' = off + l \<longleftrightarrow> off \<le> t' \<and> t' - off = l \<and> \<not> t' < off + l" by auto
  with Suc show ?case
    by (auto simp: fold_write_xy less_Suc_eq)
qed

lemma average_pooling_shape [simp]:
  "tensor_shape (average_pooling P shape buffer dim_len timeOffset d coastData)
     = tensor_shape coastData"
  unfolding average_pooling_def using fold_write_txy by blast

lemma average_pooling_data:
  "tensor_data (average_pooling P shape buffer dim_len timeOffset d coastData) (t', x', y', z', d')
     = (if timeOffset \<le> t' \<and> t' < timeOffset + dim_len \<and> x' < ind_x shape \<and> y' < ind_y shape
           \<and> z' = 0 \<and> d' = d
        then Some (pooled_value P buffer (t' - timeOffset) x' y')
        else tensor_data coastData (t', x', y', z', d'))"
  unfolding average_pooling_def using fold_write_txy by blast

subsection \<open>The loops when every call succeeds\<close>

lemma measuring_loop_ok:
  "fst (measuring_loop nc vars years shape_t trace) = 0 \<Longrightarrow>
   fst (snd (measuring_loop nc vars years shape_t trace))
     = shape_t + sum_list (map (reported_time_extent nc (vars ! 0)) years)"
proof (induction years arbitrary: shape_t trace)
  case Nil
  then show ?case by simp
next
  case (Cons year years)
  show ?case
  proof (cases "query_ok nc (vars ! 0) year")
    case True
    from Cons.prems Cons.IH [of "shape_t + reported_time_extent nc (vars ! 0) year"
        "trace @ [NcOpen (coastdat_filename (vars ! 0) year)]"]
    show ?thesis unfolding measuring_loop_step_ok [OF True] by simp
  next
    case False
    from measuring_loop_step_fail [OF False, of years shape_t trace] Cons.prems
    show ?thesis by auto
  qed
qed

lemma variable_loop_ok:
  assumes "fst (variable_loop nc p vars shape year timeOffset ds dim_len coastData trace) = 0"
  shows "fst (snd (variable_loop nc p vars shape year timeOffset ds dim_len coastData trace))
           = (if ds = [] then dim_len else reported_time_extent nc (vars ! last ds) year)
         \<and> tensor_shape (fst (snd (snd (variable_loop nc p vars shape year timeOffset ds dim_len
               coastData trace)))) = tensor_shape coastData
         \<and> (\<forall>t' x' y' z' d'.
              tensor_data (fst (snd (snd (variable_loop nc p vars shape year timeOffset ds dim_len
                 coastData trace)))) (t', x', y', z', d')
              = (if d' \<in> set ds \<and> z' = 0 \<and> timeOffset \<le> t'
                    \<and> t' < timeOffset + reported_time_extent nc (vars ! d') year
                    \<and> x' < ind_x shape \<and> y' < ind_y shape
                 then Some (pooled_value (unat (spatialPoolingSize p))
                              (raw_block nc p (vars ! d') year) (t' - timeOffset) x' y')
                 else tensor_data coastData (t', x', y', z', d')))"
  using assms
proof (induction ds arbitrary: dim_len coastData trace)
  case Nil
  then show ?case by simp
next
  case (Cons d ds)
  show ?case
  proof (cases "read_ok nc p (vars ! d) year")
    case False
    from variable_loop_step_fail [OF False, of shape timeOffset ds dim_len coastData trace] Cons.prems
    show ?thesis by auto
  next
    case True
    note step = variable_loop_step_ok [OF True, of shape timeOffset ds dim_len coastData trace]
    from Cons.prems have ok: "fst (variable_loop nc p vars shape year timeOffset ds
        (reported_time_extent nc (vars ! d) year)
        (average_pooling (unat (spatialPoolingSize p)) shape (raw_block nc p (vars ! d) year)
           (reported_time_extent nc (vars ! d) year) timeOffset d coastData)
        (trace @ [NcOpen (coastdat_filename (vars ! d) year)])) = 0"
      unfolding step .
    from Cons.IH [OF ok] show ?thesis
      unfolding step by (auto simp: average_pooling_data)
  qed
qed

lemma year_loop_ok:
  assumes "fst (year_loop nc p vars shape years timeOffset dim_len coastData trace) = 0"
    and "vars \<noteq> []"
    and "\<forall>year \<in> set years. \<forall>d < length vars.
           reported_time_extent nc (vars ! d) year = reported_time_extent nc (vars ! 0) year"
  shows "tensor_shape (fst (snd (year_loop nc p vars shape years timeOffset dim_len coastData trace)))
           = tensor_shape coastData
       \<and> (\<forall>i d tau x' y'. i < length years \<and> d < length vars
             \<and> tau < reported_time_extent nc (vars ! 0) (years ! i)
             \<and> x' < ind_x shape \<and> y' < ind_y shape \<longrightarrow>
            tensor_data (fst (snd (year_loop nc p vars shape years timeOffset dim_len coastData trace)))
              (timeOffset + sum_list (map (reported_time_extent nc (vars ! 0)) (take i years)) + tau,
               x', y', 0, d)
            = Some (pooled_value (unat (spatialPoolingSize p))
                      (raw_block nc p (vars ! d) (years ! i)) tau x' y'))
       \<and> (\<forall>t' x' y' z' d'.
            \<not> (timeOffset \<le> t'
               \<and> t' < timeOffset + sum_list (map (reported_time_extent nc (vars ! 0)) years)
               \<and> x' < ind_x shape \<and> y' < ind_y shape \<and> z' = 0 \<and> d' < length vars) \<longrightarrow>
            tensor_data (fst (snd (year_loop nc p vars shape years timeOffset dim_len coastData trace)))
              (t', x', y', z', d')
            = tensor_data coastData (t', x', y', z', d'))"
  using assms
proof (induction years arbitrary: timeOffset dim_len coastData trace)
  case Nil
  then show ?case by simp
next
  case (Cons year years)
  let ?E = "reported_time_extent nc (vars ! 0)"
  let ?P = "unat (spatialPoolingSize p)"
  obtain status dim_len1 T1 trace1 where v:
    "variable_loop nc p vars shape year timeOffset [0 ..< length vars] dim_len coastData trace
       = (status, dim_len1, T1, trace1)"
    by (metis prod_cases4)
  from Cons.prems(1) v have st: "status = 0"
    by (auto split: if_splits)
  from Cons.prems(2) have last: "last [0 ..< length vars] = length vars - 1" and n: "0 < length vars"
    by (simp_all add: last_upt)
  have "year \<in> set (year # years)" by simp
  with Cons.prems(3) have ext: "reported_time_extent nc (vars ! d) year = ?E year"
    if "d < length vars" for d
    using that by blast
  from v st have ok0: "fst (variable_loop nc p vars shape year timeOffset [0 ..< length vars]
      dim_len coastData trace) = 0" by simp
  note vl = variable_loop_ok [OF ok0, unfolded v fst_conv snd_conv]
  from vl have "dim_len1 = (if [0 ..< length vars] = [] then dim_len
      else reported_time_extent nc (vars ! last [0 ..< length vars]) year)" by blast
  with n last ext [of "length vars - 1"] have dl: "dim_len1 = ?E year" by simp
  from vl have sh1: "tensor_shape T1 = tensor_shape coastData" by blast
  from vl have raw: "tensor_data T1 (t', x', y', z', d')
              = (if d' \<in> set [0 ..< length vars] \<and> z' = 0 \<and> timeOffset \<le> t'
                    \<and> t' < timeOffset + reported_time_extent nc (vars ! d') year
                    \<and> x' < ind_x shape \<and> y' < ind_y shape
                 then Some (pooled_value ?P (raw_block nc p (vars ! d') year) (t' - timeOffset) x' y')
                 else tensor_data coastData (t', x', y', z', d'))" for t' x' y' z' d'
    by blast
  have d1: "tensor_data T1 (t', x', y', z', d')
              = (if d' < length vars \<and> z' = 0 \<and> timeOffset \<le> t'
                    \<and> t' < timeOffset + ?E year
                    \<and> x' < ind_x shape \<and> y' < ind_y shape
                 then Some (pooled_value ?P (raw_block nc p (vars ! d') year) (t' - timeOffset) x' y')
                 else tensor_data coastData (t', x', y', z', d'))" for t' x' y' z' d'
  proof (cases "d' < length vars")
    case True
    show ?thesis unfolding raw ext [OF True] using True by simp
  next
    case False
    then show ?thesis unfolding raw by simp
  qed
  have step: "year_loop nc p vars shape (year # years) timeOffset dim_len coastData trace
     = year_loop nc p vars shape years (timeOffset + ?E year) (?E year) T1 trace1"
    using v st dl by simp
  from Cons.prems(1) have ok: "fst (year_loop nc p vars shape years (timeOffset + ?E year) (?E year)
      T1 trace1) = 0"
    unfolding step .
  from Cons.prems(3) have pre: "\<forall>year \<in> set years. \<forall>d < length vars.
           reported_time_extent nc (vars ! d) year = ?E year"
    by (meson list.set_intros(2))
  note IH = Cons.IH [OF ok Cons.prems(2) pre]
  let ?T' = "fst (snd (year_loop nc p vars shape years (timeOffset + ?E year) (?E year) T1 trace1))"
  from IH have sh: "tensor_shape ?T' = tensor_shape T1" by blast
  from IH have fw: "\<And>i d tau x' y'. i < length years \<Longrightarrow> d < length vars
             \<Longrightarrow> tau < ?E (years ! i) \<Longrightarrow> x' < ind_x shape \<Longrightarrow> y' < ind_y shape \<Longrightarrow>
            tensor_data ?T'
              (timeOffset + ?E year + sum_list (map ?E (take i years)) + tau, x', y', 0, d)
            = Some (pooled_value ?P (raw_block nc p (vars ! d) (years ! i)) tau x' y')"
    by blast
  from IH have fr: "\<And>t' x' y' z' d'.
            \<not> (timeOffset + ?E year \<le> t'
               \<and> t' < timeOffset + ?E year + sum_list (map ?E years)
               \<and> x' < ind_x shape \<and> y' < ind_y shape \<and> z' = 0 \<and> d' < length vars) \<Longrightarrow>
            tensor_data ?T' (t', x', y', z', d') = tensor_data T1 (t', x', y', z', d')"
    by blast
  show ?case
    unfolding step
  proof (intro conjI allI impI)
    show "tensor_shape ?T' = tensor_shape coastData" using sh sh1 by simp
  next
    fix i d tau x' y' :: nat
    assume h: "i < length (year # years) \<and> d < length vars \<and> tau < ?E ((year # years) ! i)
               \<and> x' < ind_x shape \<and> y' < ind_y shape"
    show "tensor_data ?T'
            (timeOffset + sum_list (map ?E (take i (year # years))) + tau, x', y', 0, d)
          = Some (pooled_value ?P (raw_block nc p (vars ! d) ((year # years) ! i)) tau x' y')"
    proof (cases i)
      case 0
      with h have "tau < ?E year" by simp
      then have "tensor_data ?T' (timeOffset + tau, x', y', 0, d)
                 = tensor_data T1 (timeOffset + tau, x', y', 0, d)"
        by (intro fr) simp
      also have "\<dots> = Some (pooled_value ?P (raw_block nc p (vars ! d) year) tau x' y')"
        using h \<open>tau < ?E year\<close> by (simp add: d1)
      finally show ?thesis using 0 by simp
    next
      case (Suc j)
      with h fw [of j d tau x' y'] show ?thesis by (simp add: add.assoc)
    qed
  next
    fix t' x' y' z' d' :: nat
    assume h: "\<not> (timeOffset \<le> t'
               \<and> t' < timeOffset + sum_list (map ?E (year # years))
               \<and> x' < ind_x shape \<and> y' < ind_y shape \<and> z' = 0 \<and> d' < length vars)"
    then have "tensor_data ?T' (t', x', y', z', d') = tensor_data T1 (t', x', y', z', d')"
      by (intro fr) auto
    also have "\<dots> = tensor_data coastData (t', x', y', z', d')"
      using h by (auto simp: d1)
    finally show "tensor_data ?T' (t', x', y', z', d') = tensor_data coastData (t', x', y', z', d')" .
  qed
qed

subsection \<open>Time offsets\<close>

lemma sum_list_upt: "sum_list (map f [m ..< n]) = (\<Sum>k = m ..< n. f k)"
  by (simp add: interv_sum_list_conv_sum_set_nat)

lemma read_coastdat_ok_valid: "fst (read_coastdat nc (Some p) coastData) = 0 \<Longrightarrow> \<not> invalid_region p"
  using read_coastdat_invalid [of p nc coastData] by auto

text \<open>
  Claim C5. Let the read succeed and let all variables of every selected year report the
  same time extent. Then the tensor has the shape (sum over the selected years of the
  extent reported for the first variable, \<open>shape_x\<close>, \<open>shape_y\<close>, 1, number of
  variables). For every selected year \<open>k\<close>, every variable \<open>d\<close>, every local time
  step \<open>tau\<close> of that year and every cell \<open>(x, y)\<close>, the cell of the tensor at time
  (sum of the extents of the selected years before \<open>k\<close>) + \<open>tau\<close> and channel \<open>d\<close> holds
  the value pooled from the block of variable \<open>d\<close> and year \<open>k\<close>: the variables of a
  year share the base offset, which grows once per year. Nothing is written outside the
  shape.
\<close>

theorem time_offset_advances_once_per_year:
  assumes ok: "fst (read_coastdat nc (Some p) coastData) = 0"
    and pre: "\<forall>year \<in> set (selected_years p). \<forall>d < length (variable_list p).
                reported_time_extent nc (variable_list p ! d) year
                  = reported_time_extent nc (variable_list p ! 0) year"
  shows "tensor_shape (fst (snd (read_coastdat nc (Some p) coastData)))
           = \<lparr> ind_t = (\<Sum>year = unat (normalize_year (firstYear p)) ..< Suc (unat (normalize_year (lastYear p))).
                          reported_time_extent nc (variable_list p ! 0) year),
               ind_x = shape_x p, ind_y = shape_y p, ind_z = 1, ind_d = length (variable_list p) \<rparr>
       \<and> (\<forall>k d tau x y.
             unat (normalize_year (firstYear p)) \<le> k \<and> k \<le> unat (normalize_year (lastYear p))
             \<and> d < length (variable_list p)
             \<and> tau < reported_time_extent nc (variable_list p ! 0) k
             \<and> x < shape_x p \<and> y < shape_y p \<longrightarrow>
             tensor_data (fst (snd (read_coastdat nc (Some p) coastData)))
               ((\<Sum>year = unat (normalize_year (firstYear p)) ..< k.
                    reported_time_extent nc (variable_list p ! 0) year) + tau, x, y, 0, d)
             = Some (pooled_value (unat (spatialPoolingSize p))
                       (raw_block nc p (variable_list p ! d) k) tau x y))
       \<and> (\<forall>t' x' y' z' d'.
             tensor_data (fst (snd (read_coastdat nc (Some p) coastData))) (t', x', y', z', d') \<noteq> None
             \<longrightarrow> t' < ind_t (tensor_shape (fst (snd (read_coastdat nc (Some p) coastData))))
                 \<and> x' < shape_x p \<and> y' < shape_y p \<and> z' = 0 \<and> d' < length (variable_list p))"
proof -
  let ?vars = "variable_list p" and ?years = "selected_years p"
  let ?fy = "unat (normalize_year (firstYear p))" and ?ly = "unat (normalize_year (lastYear p))"
  let ?E = "reported_time_extent nc (?vars ! 0)"
  have years: "?years = [?fy ..< Suc ?ly]" by (simp add: selected_years_def)
  note valid = read_coastdat_ok_valid [OF ok]
  then have ne: "?vars \<noteq> []" by (auto simp: invalid_region_def Let_def)
  obtain status shape_t tr where m: "measuring_loop nc ?vars ?years 0 [] = (status, shape_t, tr)"
    by (metis prod_cases3)
  let ?shape = "\<lparr> ind_t = shape_t, ind_x = shape_x p, ind_y = shape_y p, ind_z = 1,
                  ind_d = length ?vars \<rparr>"
  let ?R = "year_loop nc p ?vars ?shape ?years 0 0 (resize ?shape coastData) tr"
  from ok m have st: "status = 0"
    unfolding read_coastdat_valid [OF valid] by (auto simp: Let_def split: if_splits)
  with m have r: "read_coastdat nc (Some p) coastData = ?R"
    unfolding read_coastdat_valid [OF valid] by (simp add: Let_def)
  from m st measuring_loop_ok [of nc ?vars ?years 0 "[]"]
  have t: "shape_t = (\<Sum>year = ?fy ..< Suc ?ly. ?E year)"
    by (simp add: years sum_list_upt del: upt_Suc)
  from ok have okR: "fst ?R = 0" unfolding r .
  note yl = year_loop_ok [OF okR ne pre]
  from yl have sh: "tensor_shape (fst (snd ?R)) = ?shape"
    by (simp add: resize_def)
  from yl have fw: "tensor_data (fst (snd ?R))
              (0 + sum_list (map ?E (take i ?years)) + tau, x', y', 0, d)
            = Some (pooled_value (unat (spatialPoolingSize p))
                      (raw_block nc p (?vars ! d) (?years ! i)) tau x' y')"
    if "i < length ?years" "d < length ?vars" "tau < ?E (?years ! i)"
       "x' < ind_x ?shape" "y' < ind_y ?shape" for i d tau x' y'
    using that by blast
  from yl have fr: "tensor_data (fst (snd ?R)) (t', x', y', z', d')
            = tensor_data (resize ?shape coastData) (t', x', y', z', d')"
    if "\<not> (0 \<le> t' \<and> t' < 0 + sum_list (map ?E ?years)
               \<and> x' < ind_x ?shape \<and> y' < ind_y ?shape \<and> z' = 0 \<and> d' < length ?vars)"
    for t' x' y' z' d'
    using that by blast
  show ?thesis
    unfolding r
  proof (intro conjI allI impI)
    show "tensor_shape (fst (snd ?R)) = \<lparr> ind_t = (\<Sum>year = ?fy ..< Suc ?ly. ?E year),
               ind_x = shape_x p, ind_y = shape_y p, ind_z = 1, ind_d = length ?vars \<rparr>"
      using sh t by simp
  next
    fix k d tau x y :: nat
    assume h: "?fy \<le> k \<and> k \<le> ?ly \<and> d < length ?vars \<and> tau < ?E k \<and> x < shape_x p \<and> y < shape_y p"
    let ?i = "k - ?fy"
    from h have le: "?fy \<le> k" "k \<le> ?ly" by simp_all
    from le have i1: "?i < length ?years"
      unfolding years by (simp del: upt_Suc)
    from le have i2: "?years ! ?i = k"
      unfolding years by (simp del: upt_Suc)
    from le have i3: "take ?i ?years = [?fy ..< k]"
      unfolding years by (simp add: take_upt del: upt_Suc)
    note i = i1 i2 i3
    from fw [of ?i d tau x y] h i
    show "tensor_data (fst (snd ?R)) ((\<Sum>year = ?fy ..< k. ?E year) + tau, x, y, 0, d)
          = Some (pooled_value (unat (spatialPoolingSize p)) (raw_block nc p (?vars ! d) k) tau x y)"
      by (simp add: sum_list_upt)
  next
    fix t' x' y' z' d' :: nat
    assume h: "tensor_data (fst (snd ?R)) (t', x', y', z', d') \<noteq> None"
    have "t' < sum_list (map ?E ?years) \<and> x' < ind_x ?shape \<and> y' < ind_y ?shape \<and> z' = 0
          \<and> d' < length ?vars"
    proof (rule ccontr)
      assume "\<not> ?thesis"
      then have "tensor_data (fst (snd ?R)) (t', x', y', z', d')
            = tensor_data (resize ?shape coastData) (t', x', y', z', d')"
        by (intro fr) simp
      with h show False by (simp add: resize_def)
    qed
    then show "t' < ind_t (tensor_shape (fst (snd ?R)))" "x' < shape_x p" "y' < shape_y p" "z' = 0"
      "d' < length ?vars"
      using sh t by (simp_all add: years sum_list_upt del: upt_Suc)
  qed
qed

text \<open>
  Two variables and two years, the first year with two time steps and the second with
  one: the time dimension is 3, and the first step of the second year of the second
  variable is stored at time 2.
\<close>

theorem time_offset_advances_once_per_year_witness:
  "fst (read_coastdat sample_nc (Some (cell_region ''ff,hs'' 1 2)) empty_tensor) = 0
   \<and> reported_time_extent sample_nc ''hs'' 1 = reported_time_extent sample_nc ''ff'' 1
   \<and> reported_time_extent sample_nc ''hs'' 2 = reported_time_extent sample_nc ''ff'' 2
   \<and> ind_t (tensor_shape (fst (snd (read_coastdat sample_nc (Some (cell_region ''ff,hs'' 1 2))
                                      empty_tensor)))) = 3
   \<and> tensor_data (fst (snd (read_coastdat sample_nc (Some (cell_region ''ff,hs'' 1 2)) empty_tensor)))
        (2, 0, 0, 0, 1)
       = Some (pooled_value 1 (raw_block sample_nc (cell_region ''ff,hs'' 1 2) ''hs'' 2) 0 0 0)"
proof -
  let ?p = "cell_region ''ff,hs'' 1 2"
  have ok: "fst (read_coastdat sample_nc (Some ?p) empty_tensor) = 0" by code_simp
  have vl: "variable_list ?p = [''ff'', ''hs'']" by code_simp
  have sy: "selected_years ?p = [1, 2]" by code_simp
  have fy: "unat (normalize_year (firstYear ?p)) = 1" by code_simp
  have ly: "unat (normalize_year (lastYear ?p)) = 2" by code_simp
  have ps: "unat (spatialPoolingSize ?p) = 1" by code_simp
  have sx: "shape_x ?p = 1" by code_simp
  have sy': "shape_y ?p = 1" by code_simp
  have e: "reported_time_extent sample_nc ''ff'' 1 = 2" "reported_time_extent sample_nc ''hs'' 1 = 2"
    "reported_time_extent sample_nc ''ff'' 2 = 1" "reported_time_extent sample_nc ''hs'' 2 = 1"
    by code_simp+
  have eS: "reported_time_extent sample_nc ''ff'' (Suc 0) = 2"
    "reported_time_extent sample_nc ''hs'' (Suc 0) = 2"
    "reported_time_extent sample_nc ''ff'' (Suc (Suc 0)) = 1"
    "reported_time_extent sample_nc ''hs'' (Suc (Suc 0)) = 1"
    by code_simp+
  have pre: "\<forall>year \<in> set (selected_years ?p). \<forall>d < length (variable_list ?p).
          reported_time_extent sample_nc (variable_list ?p ! d) year
            = reported_time_extent sample_nc (variable_list ?p ! 0) year"
    unfolding vl sy by (simp add: eS less_Suc_eq numeral_2_eq_2 nth_Cons')
  note main = time_offset_advances_once_per_year [OF ok pre]
  from main have "ind_t (tensor_shape (fst (snd (read_coastdat sample_nc (Some ?p) empty_tensor))))
      = (\<Sum>year = unat (normalize_year (firstYear ?p)) ..< Suc (unat (normalize_year (lastYear ?p))).
                          reported_time_extent sample_nc (variable_list ?p ! 0) year)"
    by simp
  then have t: "ind_t (tensor_shape (fst (snd (read_coastdat sample_nc (Some ?p) empty_tensor)))) = 3"
    unfolding fy ly vl by (simp add: e eS sum.atLeast_Suc_lessThan)
  from main have "\<forall>k d tau x y.
             unat (normalize_year (firstYear ?p)) \<le> k \<and> k \<le> unat (normalize_year (lastYear ?p))
             \<and> d < length (variable_list ?p)
             \<and> tau < reported_time_extent sample_nc (variable_list ?p ! 0) k
             \<and> x < shape_x ?p \<and> y < shape_y ?p \<longrightarrow>
             tensor_data (fst (snd (read_coastdat sample_nc (Some ?p) empty_tensor)))
               ((\<Sum>year = unat (normalize_year (firstYear ?p)) ..< k.
                    reported_time_extent sample_nc (variable_list ?p ! 0) year) + tau, x, y, 0, d)
             = Some (pooled_value (unat (spatialPoolingSize ?p))
                       (raw_block sample_nc ?p (variable_list ?p ! d) k) tau x y)"
    by blast
  from this [rule_format, of 2 1 0 0 0]
  have c: "tensor_data (fst (snd (read_coastdat sample_nc (Some ?p) empty_tensor))) (2, 0, 0, 0, 1)
       = Some (pooled_value 1 (raw_block sample_nc ?p ''hs'' 2) 0 0 0)"
    unfolding fy ly vl sx sy' ps by (simp add: e eS sum.atLeast_Suc_lessThan)
  from ok e t c show ?thesis by simp
qed

subsection \<open>Rounding to \<open>p\<close> significant bits\<close>

text \<open>
  The exponent found by \<open>ilog2\<close> brackets the value, \<open>round_even\<close> is within one half
  of its argument, and so the rounded quotient of two natural numbers, the numerator
  below \<open>2\<^sup>p\<close>, has the floor and the ceiling of the exact quotient.
\<close>

lemma pow2_powi: "pow2 e = 2 powi e"
  by (simp add: pow2_def power_int_def field_simps)

lemma pow2_pos: "0 < pow2 e"
  by (simp add: pow2_powi)

lemma ilog2_bounds:
  assumes "0 < q"
  shows "pow2 (ilog2 q) \<le> q \<and> q < pow2 (ilog2 q + 1)"
proof (cases "1 \<le> q")
  case True
  let ?n = "\<lfloor>q\<rfloor>"
  from True have n: "0 < ?n" by simp
  from bitlen_bounds [OF n] have b: "2 ^ nat (bitlen ?n - 1) \<le> ?n" "?n < 2 ^ nat (bitlen ?n)"
    by simp_all
  from n have bl: "1 \<le> bitlen ?n" by (simp add: bitlen_alt_def)
  have "(of_int (2 ^ nat (bitlen ?n - 1)) :: rat) \<le> of_int ?n"
    using b(1) by (simp only: of_int_le_iff)
  also have "\<dots> \<le> q" by simp
  finally have lo: "(2 :: rat) ^ nat (bitlen ?n - 1) \<le> q" by simp
  from b(2) have "?n + 1 \<le> 2 ^ nat (bitlen ?n)" by simp
  then have "(of_int (?n + 1) :: rat) \<le> of_int (2 ^ nat (bitlen ?n))"
    by (simp only: of_int_le_iff)
  moreover have "q < of_int (?n + 1)" by linarith
  ultimately have hi: "q < (2 :: rat) ^ nat (bitlen ?n)" by simp
  from True bl lo hi show ?thesis
    by (simp add: ilog2_def pow2_def)
next
  case False
  let ?r = "1 / q"
  let ?n = "\<lceil>?r\<rceil> - 1"
  from False assms have r: "1 < ?r" by simp
  then have n: "0 < ?n" by linarith
  from bitlen_bounds [OF n] have b: "2 ^ nat (bitlen ?n - 1) \<le> ?n" "?n < 2 ^ nat (bitlen ?n)"
    by simp_all
  from n have bl: "1 \<le> bitlen ?n" by (simp add: bitlen_alt_def)
  have "(of_int (2 ^ nat (bitlen ?n - 1)) :: rat) \<le> of_int ?n"
    using b(1) by (simp only: of_int_le_iff)
  moreover have "of_int ?n < ?r" by linarith
  ultimately have lo: "(2 :: rat) ^ nat (bitlen ?n - 1) < ?r" by simp
  from b(2) have "?n + 1 \<le> 2 ^ nat (bitlen ?n)" by simp
  then have "(of_int (?n + 1) :: rat) \<le> of_int (2 ^ nat (bitlen ?n))"
    by (simp only: of_int_le_iff)
  moreover have "?r \<le> of_int (?n + 1)"
    using le_of_int_ceiling [of ?r] by simp
  ultimately have hi: "?r \<le> (2 :: rat) ^ nat (bitlen ?n)"
    by (metis of_int_numeral of_int_power order_trans)
  from hi assms have a: "1 / 2 ^ nat (bitlen ?n) \<le> q"
    by (simp add: field_simps)
  from lo assms have c: "q < 1 / 2 ^ nat (bitlen ?n - 1)"
    by (simp add: field_simps)
  have e: "ilog2 q = - bitlen ?n" using False by (simp add: ilog2_def)
  from bl have "pow2 (- bitlen ?n) = 1 / 2 ^ nat (bitlen ?n)"
    by (simp add: pow2_def)
  moreover have "pow2 (- bitlen ?n + 1) = 1 / 2 ^ nat (bitlen ?n - 1)"
  proof (cases "bitlen ?n = 1")
    case True
    then show ?thesis by (simp add: pow2_def)
  next
    case False
    with bl have "- bitlen ?n + 1 < 0" by simp
    then have "pow2 (- bitlen ?n + 1) = 1 / 2 ^ nat (- (- bitlen ?n + 1))"
      by (simp add: pow2_def)
    then show ?thesis by simp
  qed
  ultimately show ?thesis using a c e by simp
qed

lemma round_even_near:
  "of_int (round_even q) \<le> q + 1 / 2 \<and> q - 1 / 2 \<le> of_int (round_even q)"
proof -
  have f: "of_int \<lfloor>q\<rfloor> \<le> q" "q < of_int \<lfloor>q\<rfloor> + 1" by linarith+
  consider "q - of_int \<lfloor>q\<rfloor> < 1 / 2" | "1 / 2 < q - of_int \<lfloor>q\<rfloor>"
    | "q - of_int \<lfloor>q\<rfloor> = 1 / 2" by linarith
  then show ?thesis
  proof cases
    case 1
    then have eq: "round_even q = \<lfloor>q\<rfloor>" by (simp add: round_even_def Let_def)
    from f 1 show ?thesis unfolding eq by linarith
  next
    case 2
    then have eq: "round_even q = \<lfloor>q\<rfloor> + 1" by (simp add: round_even_def Let_def)
    from f 2 show ?thesis unfolding eq of_int_add of_int_1 by linarith
  next
    case 3
    then have "round_even q = \<lfloor>q\<rfloor> \<or> round_even q = \<lfloor>q\<rfloor> + 1"
      by (simp add: round_even_def Let_def)
    then show ?thesis
    proof
      assume eq: "round_even q = \<lfloor>q\<rfloor>"
      from f 3 show ?thesis unfolding eq by linarith
    next
      assume eq: "round_even q = \<lfloor>q\<rfloor> + 1"
      from f 3 show ?thesis unfolding eq of_int_add of_int_1 by linarith
    qed
  qed
qed

lemma round_even_floor_ceiling: "\<lfloor>q\<rfloor> \<le> round_even q \<and> round_even q \<le> \<lceil>q\<rceil>"
proof -
  have "q - of_int \<lfloor>q\<rfloor> \<noteq> 0 \<Longrightarrow> \<lceil>q\<rceil> = \<lfloor>q\<rfloor> + 1"
    by (metis ceiling_altdef eq_iff_diff_eq_0)
  then show ?thesis
    by (auto simp: round_even_def Let_def)
qed

lemma pow2_add: "pow2 (a + b) = pow2 a * pow2 b"
  by (simp add: pow2_powi power_int_add)

lemma pow2_nat: "pow2 (int n) = 2 ^ n"
  by (simp add: pow2_def)

lemma pow2_0: "pow2 0 = 1"
  by (simp add: pow2_def)

lemma pow2_1: "pow2 1 = 2"
  by (simp add: pow2_def)

lemma pow2_less_exp: "pow2 a < pow2 b \<Longrightarrow> a < b"
  using power_int_increasing [of b a "2 :: rat"] by (fastforce simp: pow2_powi)

lemma fp_round_unit:
  assumes "0 < q" "q < 2 ^ p"
  shows "fp_round p q = of_int (round_even (q * 2 ^ nat (int p - 1 - ilog2 q)))
                          / 2 ^ nat (int p - 1 - ilog2 q)
         \<and> pow2 (ilog2 q - int p) * 2 * 2 ^ nat (int p - 1 - ilog2 q) = 1"
proof -
  let ?e = "ilog2 q" and ?j = "nat (int p - 1 - ilog2 q)"
  from ilog2_bounds [OF assms(1)] assms(2) have "pow2 ?e < pow2 (int p)"
    by (simp add: pow2_nat)
  then have e: "?e < int p" by (rule pow2_less_exp)
  then have j: "int ?j = int p - 1 - ?e" by simp
  have "pow2 (?e - int p + 1) * pow2 (int ?j) = pow2 0"
    unfolding pow2_add [symmetric] j by simp
  then have "pow2 (?e - int p + 1) * 2 ^ ?j = 1"
    unfolding pow2_nat pow2_0 .
  then have u: "pow2 (?e - int p + 1) = 1 / 2 ^ ?j"
    by (simp add: field_simps)
  have "pow2 (?e - int p) * pow2 1 = pow2 (?e - int p + 1)"
    unfolding pow2_add [symmetric] by simp
  then have h: "pow2 (?e - int p) * 2 = 1 / 2 ^ ?j"
    unfolding pow2_1 u .
  from assms(1) u have "fp_round p q = of_int (round_even (q * 2 ^ ?j)) / 2 ^ ?j"
    by (simp add: fp_round_def Let_def)
  with h show ?thesis by simp
qed

lemma fp_round_ge_int:
  assumes "0 < q" "q < 2 ^ p" "of_int k \<le> q"
  shows "of_int k \<le> fp_round p q"
proof -
  let ?j = "nat (int p - 1 - ilog2 q)"
  from assms(3) have "of_int (k * 2 ^ ?j) \<le> q * 2 ^ ?j" by simp
  then have "k * 2 ^ ?j \<le> \<lfloor>q * 2 ^ ?j\<rfloor>" by (simp only: le_floor_iff)
  also have "\<dots> \<le> round_even (q * 2 ^ ?j)" using round_even_floor_ceiling by blast
  finally have "(of_int (k * 2 ^ ?j) :: rat) \<le> of_int (round_even (q * 2 ^ ?j))"
    by (simp only: of_int_le_iff)
  then have "of_int k \<le> of_int (round_even (q * 2 ^ ?j)) / (2 ^ ?j :: rat)"
    by (simp add: field_simps)
  then show ?thesis using fp_round_unit [OF assms(1,2)] by simp
qed

lemma fp_round_le_int:
  assumes "0 < q" "q < 2 ^ p" "q \<le> of_int k"
  shows "fp_round p q \<le> of_int k"
proof -
  let ?j = "nat (int p - 1 - ilog2 q)"
  from assms(3) have "q * 2 ^ ?j \<le> of_int (k * 2 ^ ?j)" by simp
  then have "\<lceil>q * 2 ^ ?j\<rceil> \<le> k * 2 ^ ?j" by (simp only: ceiling_le_iff)
  moreover have "round_even (q * 2 ^ ?j) \<le> \<lceil>q * 2 ^ ?j\<rceil>"
    using round_even_floor_ceiling by blast
  ultimately have "round_even (q * 2 ^ ?j) \<le> k * 2 ^ ?j" by (rule order_trans [rotated])
  then have "(of_int (round_even (q * 2 ^ ?j)) :: rat) \<le> of_int (k * 2 ^ ?j)"
    by (simp only: of_int_le_iff)
  then have "of_int (round_even (q * 2 ^ ?j)) / (2 ^ ?j :: rat) \<le> of_int k"
    by (simp add: field_simps)
  then show ?thesis using fp_round_unit [OF assms(1,2)] by simp
qed

lemma fp_round_gt_int:
  assumes "0 < q" "q < 2 ^ p" "of_int k + pow2 (ilog2 q - int p) < q"
  shows "of_int k < fp_round p q"
proof -
  let ?j = "nat (int p - 1 - ilog2 q)"
  note u = fp_round_unit [OF assms(1,2)]
  from u have h: "pow2 (ilog2 q - int p) * 2 ^ ?j = 1 / 2" by (simp add: field_simps)
  from assms(3) have "(of_int k + pow2 (ilog2 q - int p)) * 2 ^ ?j < q * 2 ^ ?j"
    by simp
  then have "of_int k * 2 ^ ?j + 1 / 2 < q * 2 ^ ?j"
    using h by (simp add: algebra_simps)
  moreover have "q * 2 ^ ?j - 1 / 2 \<le> of_int (round_even (q * 2 ^ ?j))"
    using round_even_near by blast
  ultimately have "of_int k * 2 ^ ?j < (of_int (round_even (q * 2 ^ ?j)) :: rat)" by linarith
  then have "of_int k < of_int (round_even (q * 2 ^ ?j)) / (2 ^ ?j :: rat)"
    by (simp add: field_simps)
  then show ?thesis using u by simp
qed

lemma fp_round_lt_int:
  assumes "0 < q" "q < 2 ^ p" "q < of_int k - pow2 (ilog2 q - int p)"
  shows "fp_round p q < of_int k"
proof -
  let ?j = "nat (int p - 1 - ilog2 q)"
  note u = fp_round_unit [OF assms(1,2)]
  from u have h: "pow2 (ilog2 q - int p) * 2 ^ ?j = 1 / 2" by (simp add: field_simps)
  from assms(3) have "q * 2 ^ ?j < (of_int k - pow2 (ilog2 q - int p)) * 2 ^ ?j"
    by simp
  then have "q * 2 ^ ?j < of_int k * 2 ^ ?j - 1 / 2"
    using h by (simp add: algebra_simps)
  moreover have "of_int (round_even (q * 2 ^ ?j)) \<le> q * 2 ^ ?j + 1 / 2"
    using round_even_near by blast
  ultimately have "(of_int (round_even (q * 2 ^ ?j)) :: rat) < of_int k * 2 ^ ?j" by linarith
  then have "of_int (round_even (q * 2 ^ ?j)) / (2 ^ ?j :: rat) < of_int k"
    by (simp add: field_simps)
  then show ?thesis using u by simp
qed

lemma fp_round_quotient:
  fixes a b :: nat
  assumes b: "0 < b" and a: "a < 2 ^ p"
  shows "\<lfloor>fp_round p (of_nat a / of_nat b)\<rfloor> = int (a div b)
         \<and> \<lceil>fp_round p (of_nat a / of_nat b)\<rceil> = \<lceil>(of_nat a / of_nat b :: rat)\<rceil>"
proof (cases "a = 0")
  case True
  then show ?thesis by (simp add: fp_round_def)
next
  case False
  let ?q = "of_nat a / of_nat b :: rat"
  let ?k = "int (a div b)"
  let ?r = "a mod b"
  from False b have q0: "0 < ?q" by simp
  from b have b1: "(1 :: rat) \<le> of_nat b" by simp
  have "?q \<le> of_nat a"
    using b1 by (simp add: field_simps mult_le_cancel_left1)
  also have "(of_nat a :: rat) < 2 ^ p"
    using a by (metis of_nat_less_iff of_nat_numeral of_nat_power)
  finally have qp: "?q < 2 ^ p" .
  have "(of_nat a :: rat) = of_nat (a div b) * of_nat b + of_nat ?r"
    by (metis div_mult_mod_eq of_nat_add of_nat_mult)
  then have "?q = (of_nat (a div b) * of_nat b + of_nat ?r) / of_nat b"
    by (simp only:)
  also have "\<dots> = of_int ?k + of_nat ?r / of_nat b"
    using b by (simp add: add_divide_distrib)
  finally have split: "?q = of_int ?k + of_nat ?r / of_nat b" .
  show ?thesis
  proof (cases "?r = 0")
    case True
    with split have eq: "?q = of_int ?k" by simp
    from fp_round_ge_int [OF q0 qp, of ?k] fp_round_le_int [OF q0 qp, of ?k] eq
    have "fp_round p ?q = of_int ?k" by simp
    then show ?thesis using eq by simp
  next
    case False
    then have r0: "(1 :: rat) \<le> of_nat ?r" by simp
    from b have "?r < b" by simp
    then have "?r + 1 \<le> b" by simp
    then have r1: "(of_nat ?r :: rat) + 1 \<le> of_nat b"
      by (metis of_nat_1 of_nat_add of_nat_le_iff)
    let ?g = "pow2 (ilog2 ?q - int p)"
    have "pow2 (ilog2 ?q) \<le> ?q" using ilog2_bounds [OF q0] by blast
    then have "pow2 (ilog2 ?q) * of_nat b \<le> of_nat a"
      using b by (simp add: field_simps)
    also have "(of_nat a :: rat) < 2 ^ p"
      using a by (metis of_nat_less_iff of_nat_numeral of_nat_power)
    finally have "pow2 (ilog2 ?q) * of_nat b < 2 ^ p" .
    then have "pow2 (ilog2 ?q) * of_nat b / 2 ^ p < 1" by simp
    moreover have "?g = pow2 (ilog2 ?q) * pow2 (- int p)"
      using pow2_add [of "ilog2 ?q" "- int p"] by simp
    moreover have "pow2 (- int p) = 1 / 2 ^ p" by (simp add: pow2_def)
    ultimately have "?g * of_nat b < 1" by simp
    then have g: "?g < 1 / of_nat b" using b by (simp add: field_simps)
    have lo: "1 / of_nat b \<le> (of_nat ?r :: rat) / of_nat b"
      using r0 b by (simp add: field_simps)
    have hi: "(of_nat ?r :: rat) / of_nat b \<le> 1 - 1 / of_nat b"
      using r1 b by (simp add: field_simps)
    from g lo split have "of_int ?k + ?g < ?q" by linarith
    from fp_round_gt_int [OF q0 qp this] have gt: "of_int ?k < fp_round p ?q" .
    from g hi split have "?q < of_int (?k + 1) - ?g" by simp
    from fp_round_lt_int [OF q0 qp this] have lt: "fp_round p ?q < of_int (?k + 1)" .
    from gt lt have f: "\<lfloor>fp_round p ?q\<rfloor> = ?k"
      by (intro floor_unique) simp_all
    from gt lt have c: "\<lceil>fp_round p ?q\<rceil> = ?k + 1"
      by (intro ceiling_unique) simp_all
    from lo hi split b have "of_int ?k < ?q" "?q \<le> of_int (?k + 1)"
      by (simp_all add: field_simps)
    then have "\<lceil>?q\<rceil> = ?k + 1"
      by (intro ceiling_unique) simp_all
    with f c show ?thesis by simp
  qed
qed

lemma fp_round_nat:
  fixes n :: nat
  assumes "n < 2 ^ p"
  shows "fp_round p (of_nat n) = of_nat n"
proof -
  from fp_round_quotient [of 1 n p] assms
  have "\<lfloor>fp_round p (of_nat n)\<rfloor> = int n" "\<lceil>fp_round p (of_nat n)\<rceil> = int n" by simp_all
  then have "of_int (int n) \<le> fp_round p (of_nat n)" "fp_round p (of_nat n) \<le> of_int (int n)"
    by (metis of_int_floor_le, metis le_of_int_ceiling)
  then show ?thesis by simp
qed

subsection \<open>The pooled extents and the pooled values\<close>

text \<open>
  For pooling sizes below \<open>2\<^sup>2\<^sup>4\<close>, line 94 computes the floor of extent by pooling
  size for every longitude extent, and line 95 computes the ceiling for latitude extents
  below \<open>2\<^sup>2\<^sup>4\<close> (beyond that the conversion of the extent to \<^verbatim>\<open>float\<close> rounds).
\<close>

lemma shape_y_ceiling:
  assumes "1 \<le> unat (spatialPoolingSize p)" "unat (spatialPoolingSize p) < 2 ^ 24"
    and "unat (lastLat p - firstLat p + 1) < 2 ^ 24"
  shows "shape_y p = spec_pooled_extent (unat (lastLat p - firstLat p + 1))
                       (unat (spatialPoolingSize p))"
proof -
  let ?A = "unat (lastLat p - firstLat p + 1)" and ?P = "unat (spatialPoolingSize p)"
  from assms(1) have P: "0 < ?P" by simp
  have "shape_y p = nat \<lfloor>(of_int \<lceil>fp_round 24 (fp_round 24 (of_nat ?A)
                                                    / fp_round 24 (of_nat ?P))\<rceil> :: rat)\<rfloor>"
    unfolding shape_y_def to_Index_def ceil_fp_def to_float_def of_uint_def ..
  also have "\<dots> = nat \<lceil>fp_round 24 (of_nat ?A / of_nat ?P)\<rceil>"
    unfolding fp_round_nat [OF assms(2)] fp_round_nat [OF assms(3)] floor_of_int ..
  also have "\<dots> = nat \<lceil>(of_nat ?A / of_nat ?P :: rat)\<rceil>"
    using fp_round_quotient [OF P assms(3)] by simp
  finally show ?thesis by (simp add: spec_pooled_extent_def)
qed

lemma shape_x_floor:
  assumes "1 \<le> unat (spatialPoolingSize p)" "unat (spatialPoolingSize p) < 2 ^ 24"
  shows "shape_x p = unat (lastLon p - firstLon p + 1) div unat (spatialPoolingSize p)"
proof -
  let ?A = "unat (lastLon p - firstLon p + 1)" and ?P = "unat (spatialPoolingSize p)"
  from assms(1) have P: "0 < ?P" by simp
  have "?A < 2 ^ 32" using unsigned_less [of "lastLon p - firstLon p + 1"] by simp
  then have A: "?A < 2 ^ 53" by simp
  have "shape_x p = nat \<lfloor>fp_round 53 ((of_int \<lceil>(of_nat ?A :: rat)\<rceil>)
                                       / fp_round 24 (of_nat ?P))\<rfloor>"
    unfolding shape_x_def to_Index_def ceil_fp_def to_float_def to_double_def of_uint_def ..
  also have "\<dots> = nat \<lfloor>fp_round 53 (of_nat ?A / of_nat ?P)\<rfloor>"
    unfolding fp_round_nat [OF assms(2)] ceiling_of_nat of_int_of_nat_eq ..
  also have "\<dots> = ?A div ?P"
    using fp_round_quotient [OF P A] by simp
  finally show ?thesis .
qed

text \<open>
  Claim C1 at the default region. The longitudes 30 to 98 are 69 columns; with the
  pooling size 4 the specification asks for 18 cells, the ceiling of the quotient.
  Line 94 applies \<^verbatim>\<open>ceil\<close> to the extent before the division, and the quotient 17.25 is
  truncated to 17 in \<open>shape.x\<close>. Line 95, where the division is inside \<^verbatim>\<open>ceil\<close>, gives
  the ceiling 12 for the 48 rows.
\<close>

theorem shape_x_default_region:
  "shape_x preset = 17
   \<and> spec_pooled_extent (unat (lastLon preset - firstLon preset + 1))
         (unat (spatialPoolingSize preset)) = 18
   \<and> shape_y preset = 12
   \<and> spec_pooled_extent (unat (lastLat preset - firstLat preset + 1))
         (unat (spatialPoolingSize preset)) = 12"
  by code_simp

text \<open>
  The value that the code stores for a time step \<open>t\<close> is the mean over the window of
  the destination cell of the samples of time step 0, whatever \<open>t\<close> is: the map of line
  163 starts at \<^verbatim>\<open>buffer.raw()\<close> in every iteration.
\<close>

lemma pooled_value_time_step_zero:
  "pooled_value poolingSize buffer t x y = spec_pooled_value poolingSize buffer 0 x y"
  by (simp add: pooled_value_def spec_pooled_value_def block_mean_def timestep_def sample_def
      Let_def)

text \<open>
  Claim C2 at one grid cell with two time steps, the samples 10 and 20. The mean of the
  window at time step 1 is 20; the tensor holds 10 at time 1, the sample of time step 0.
\<close>

theorem pooling_reads_first_time_step:
  "tensor_data (fst (snd (read_coastdat sample_nc (Some (cell_region ''ff'' 1 1)) empty_tensor)))
     (1, 0, 0, 0, 0) = Some 10
   \<and> spec_pooled_value 1 (raw_block sample_nc (cell_region ''ff'' 1 1) ''ff'' 1) 1 0 0 = 20
   \<and> spec_pooled_value 1 (raw_block sample_nc (cell_region ''ff'' 1 1) ''ff'' 1) 0 0 0 = 10"
  by code_simp

end
